theory Spec2Isabelle
  imports Main
begin

section \<open>Go library functions used by the agent\<close>

text \<open>
  Go strings are byte strings; they are modelled as \<open>string\<close> (a list of 8-bit characters).
  \<open>HasPrefix\<close> and \<open>TrimPrefix\<close> follow package \<open>strings\<close>:
  \<^verbatim>\<open>
  func HasPrefix(s, prefix string) bool {
      return len(s) >= len(prefix) && s[:len(prefix)] == prefix }
  func TrimPrefix(s, prefix string) string {
      if HasPrefix(s, prefix) { return s[len(prefix):] }
      return s }
  \<close>
\<close>

definition HasPrefix :: "string \<Rightarrow> string \<Rightarrow> bool" where
  "HasPrefix s pre = (length pre \<le> length s \<and> take (length pre) s = pre)"

definition TrimPrefix :: "string \<Rightarrow> string \<Rightarrow> string" where
  "TrimPrefix s pre = (if HasPrefix s pre then drop (length pre) s else s)"

text \<open>
  Package \<open>unicode/utf8\<close>. \<open>DecodeRune\<close> reads the first rune of a byte sequence and its
  width: an ASCII byte is itself; a leading byte \<open>0xC2..0xF4\<close> announces 2, 3 or 4 bytes,
  the second of which must lie in the range the leading byte accepts (no overlong form, no
  surrogate, nothing above \<open>U+10FFFF\<close>) and the others in \<open>0x80..0xBF\<close>; anything else is
  \<open>RuneError\<close> of width 1. The masks \<open>s0 & 0x1F\<close>, \<open>s1 & 0x3F\<close> and the shifts of the
  library are written with \<open>mod\<close> and multiplication.
\<close>

definition RuneError :: nat where
  "RuneError = 0xFFFD"

definition DecodeRune :: "nat list \<Rightarrow> nat \<times> nat" where
  "DecodeRune p =
     (case p of
        [] \<Rightarrow> (RuneError, 0)
      | p0 # rest \<Rightarrow>
          if p0 < 0x80 then (p0, 1)
          else if p0 < 0xC2 \<or> 0xF4 < p0 then (RuneError, 1)
          else
            let sz = (if p0 < 0xE0 then 2 else if p0 < 0xF0 then 3 else 4) :: nat;
                lo = (if p0 = 0xE0 then 0xA0 else if p0 = 0xF0 then 0x90 else 0x80) :: nat;
                hi = (if p0 = 0xED then 0x9F else if p0 = 0xF4 then 0x8F else 0xBF) :: nat
            in if length p < sz then (RuneError, 1)
               else
                 let b1 = p ! 1
                 in if b1 < lo \<or> hi < b1 then (RuneError, 1)
                    else if sz \<le> 2 then ((p0 mod 0x20) * 0x40 + b1 mod 0x40, 2)
                    else
                      let b2 = p ! 2
                      in if b2 < 0x80 \<or> 0xBF < b2 then (RuneError, 1)
                         else if sz \<le> 3
                         then ((p0 mod 0x10) * 0x1000 + (b1 mod 0x40) * 0x40 + b2 mod 0x40, 3)
                         else
                           let b3 = p ! 3
                           in if b3 < 0x80 \<or> 0xBF < b3 then (RuneError, 1)
                              else ((p0 mod 8) * 0x40000 + (b1 mod 0x40) * 0x1000
                                      + (b2 mod 0x40) * 0x40 + b3 mod 0x40, 4))"

definition DecodeRuneInString :: "string \<Rightarrow> nat \<times> nat" where
  "DecodeRuneInString s = DecodeRune (map of_char s)"

text \<open>
  \<open>utf8.ValidString\<close>: every rune of the string decodes; the only failure of the decoder
  is \<open>RuneError\<close> of width 1.
\<close>

function ValidString :: "string \<Rightarrow> bool" where
  "ValidString s =
     (if s = [] then True
      else (case DecodeRuneInString s of
              (r, w) \<Rightarrow> if r = RuneError \<and> w = 1 then False else ValidString (drop w s)))"
  by pat_completeness auto
termination
  by (relation "measure length")
     (auto simp add: DecodeRuneInString_def DecodeRune_def Let_def neq_Nil_conv
        split: if_splits)

declare ValidString.simps [simp del]

text \<open>
  \<open>unicode.IsSpace\<close>: the white space of Latin-1 (tab to carriage return, space,
  \<open>U+0085\<close>, \<open>U+00A0\<close>) and, above it, the code points of the property \<open>White_Space\<close>.
\<close>

definition unicode_IsSpace :: "nat \<Rightarrow> bool" where
  "unicode_IsSpace r =
     ((0x09 \<le> r \<and> r \<le> 0x0D) \<or> r = 0x20 \<or> r = 0x85 \<or> r = 0xA0 \<or> r = 0x1680
      \<or> (0x2000 \<le> r \<and> r \<le> 0x200A) \<or> r = 0x2028 \<or> r = 0x2029 \<or> r = 0x202F
      \<or> r = 0x205F \<or> r = 0x3000)"

text \<open>
  \<open>strings.Fields\<close> splits a string around runs of white space. On a string of ASCII
  bytes it uses the table \<open>asciiSpace\<close> (tab, line feed, vertical tab, form feed, carriage
  return, space), byte by byte; on a string with a byte \<open>0x80\<close> or above it is
  \<open>FieldsFunc(s, unicode.IsSpace)\<close>, which walks the runes of the string (\<open>range s\<close>, an
  invalid byte being one rune of width 1) and cuts at every white-space rune. Both scans
  keep the current field in an accumulator, as the library keeps the index where the
  field started.
\<close>

definition isSpace :: "char \<Rightarrow> bool" where
  "isSpace c = (c \<in> set [CHR 0x09, CHR 0x0A, CHR 0x0B, CHR 0x0C, CHR 0x0D, CHR 0x20])"

fun fields_from :: "string \<Rightarrow> string \<Rightarrow> string list" where
  "fields_from cur [] = (if cur = [] then [] else [rev cur])"
| "fields_from cur (c # cs) =
     (if isSpace c then (if cur = [] then fields_from [] cs else rev cur # fields_from [] cs)
      else fields_from (c # cur) cs)"

function FieldsFunc_from :: "string \<Rightarrow> string \<Rightarrow> string list" where
  "FieldsFunc_from cur s =
     (if s = [] then (if cur = [] then [] else [rev cur])
      else (case DecodeRuneInString s of
              (r, w) \<Rightarrow>
                if unicode_IsSpace r
                then (if cur = [] then FieldsFunc_from [] (drop w s)
                      else rev cur # FieldsFunc_from [] (drop w s))
                else FieldsFunc_from (rev (take w s) @ cur) (drop w s)))"
  by pat_completeness auto
termination
  by (relation "measure (\<lambda>(cur, s). length s)")
     (auto simp add: DecodeRuneInString_def DecodeRune_def Let_def neq_Nil_conv
        split: if_splits)

declare FieldsFunc_from.simps [simp del]

definition Fields :: "string \<Rightarrow> string list" where
  "Fields s =
     (if \<exists>c\<in>set s. (0x80 :: nat) \<le> of_char c then FieldsFunc_from [] s
      else fields_from [] s)"

text \<open>The verb \<open>%d\<close> of \<open>fmt.Sprintf\<close>: a decimal numeral, with a minus sign when negative.\<close>

fun fmt_nat :: "nat \<Rightarrow> string" where
  "fmt_nat n =
     (if n < 10 then [''0123456789'' ! n]
      else fmt_nat (n div 10) @ [''0123456789'' ! (n mod 10)])"

declare fmt_nat.simps [simp del]

definition fmt_d :: "int \<Rightarrow> string" where
  "fmt_d i = (if i < 0 then CHR ''-'' # fmt_nat (nat (- i)) else fmt_nat (nat i))"

text \<open>
  \<open>prometheus.BuildFQName(namespace, subsystem, name)\<close> with the empty subsystem the agent
  uses: the name alone, or the namespace, an underscore and the name.
\<close>

definition BuildFQName :: "string \<Rightarrow> string \<Rightarrow> string" where
  "BuildFQName namespace name =
     (if name = [] then []
      else if namespace \<noteq> [] then namespace @ ''_'' @ name
      else name)"

section \<open>The operating system as seen by one check\<close>

text \<open>
  The agent reads the file system and the clock. One value of \<open>os_state\<close> holds the answers
  the operating system gives during one check: the result of \<open>os.Stat\<close> on a path (an error,
  or whether the path is a directory), the result of opening and scanning \<open>/proc/mounts\<close>
  (an error of \<open>os.Open\<close>, or the lines read and the error \<open>scanner.Err()\<close> reports), the
  results of \<open>os.WriteFile\<close> and \<open>os.Remove\<close> on a file of a directory, the process id, the
  clock reading \<open>time.Now().UnixNano()\<close> and the duration the write-test timer measures
  (nanoseconds). The file written by the write test is \<open>filepath.Join(mountPoint, name)\<close>;
  the model keeps the directory and the file name apart.
\<close>

type_synonym os_error = string

record os_state =
  stat_result :: "string \<Rightarrow> os_error + bool"
  proc_mounts :: "os_error + (string list \<times> os_error option)"
  writefile_result :: "string \<Rightarrow> string \<Rightarrow> os_error option"
  remove_result :: "string \<Rightarrow> string \<Rightarrow> os_error option"
  pid :: int
  now_nanos :: int
  timer_nanos :: int

text \<open>The system calls a check performs, in the order it performs them.\<close>

datatype syscall =
    Stat string
  | OpenProcMounts
  | WriteFile string string
  | Remove string string

section \<open>Errors\<close>

text \<open>
  \<open>isOnNFS\<close> returns one of three errors; \<open>checkMounted\<close> has five places that return an
  error, each with its own message; the messages that wrap a cause (\<open>%w\<close>) carry it.
  The panics are values of \<open>panic\<close>: a nil pointer dereference, \<open>time.NewTicker\<close> on a
  non-positive interval, \<open>WithLabelValues\<close> of a metric vector on a label value that is
  not valid UTF-8, and \<open>MustRegister\<close> on a metric that cannot be registered.
\<close>

datatype mounts_error =
    OpenFailed os_error
  | ScanFailed os_error
  | MountPointNotFound

datatype check_error =
    StatFailed os_error
  | NotADirectory
  | CheckingProcMountsFailed mounts_error
  | NotAnNFSMount
  | WriteTestFailed os_error

datatype panic =
    NilPointerDereference
  | NonPositiveTickerInterval
  | InvalidLabelValue
  | RegistrationFailed

section \<open>The watchdog\<close>

text \<open>
  \<open>lastHealthy\<close> is the Go map from mount point to the last health value. The metric
  vectors are maps from label values to the child's value; a label combination that was
  never used has no child. The histogram of write-test durations is a pointer that is nil
  when the write test is disabled: \<open>None\<close>. \<open>WithLabelValues\<close> panics when a label value is
  not valid UTF-8. The mutex is not modelled: the model is sequential. The lines written
  with \<open>log.Printf\<close> are not modelled either.
\<close>

record Watchdog =
  mountPoints :: "string list"
  checkInterval :: int
  enableWriteTest :: bool
  lastHealthy :: "string \<rightharpoonup> bool"
  buildInfo :: "(string \<times> string) \<rightharpoonup> int"
  nfsMountHealthy :: "string \<rightharpoonup> int"
  nfsChecksTotal :: "(string \<times> string) \<rightharpoonup> nat"
  nfsRemountsTotal :: "(string \<times> string) \<rightharpoonup> nat"
  nfsWriteTestDuration :: "(string \<rightharpoonup> int list) option"

text \<open>
  \<open>promauto\<close> creates a vector and registers it with the default registerer, and panics
  when the registration fails. The registry is the state of that registerer: the fully
  qualified names registered so far (by this program or by anything else in the process)
  and the check of metric names of the client library, which depends on the version of the
  library and is a parameter here. A registration fails when the name is refused or
  already registered (the vectors of the agent have no constant labels, so that two of
  them collide exactly when their names are equal).
\<close>

record registry =
  registered :: "string list"
  name_valid :: "string \<Rightarrow> bool"

definition MustRegister :: "registry \<Rightarrow> string \<Rightarrow> panic + registry" where
  "MustRegister reg fq =
     (if \<not> name_valid reg fq \<or> fq \<in> set (registered reg) then Inl RegistrationFailed
      else Inr (reg\<lparr>registered := registered reg @ [fq]\<rparr>))"

fun register_all :: "registry \<Rightarrow> string list \<Rightarrow> panic + registry" where
  "register_all reg [] = Inr reg"
| "register_all reg (fq # fqs) =
     (case MustRegister reg fq of
        Inl p \<Rightarrow> Inl p
      | Inr reg' \<Rightarrow> register_all reg' fqs)"

text \<open>The loop of \<open>NewWatchdog\<close> that stores \<open>false\<close> for every configured mount point.\<close>

fun init_lastHealthy :: "(string \<rightharpoonup> bool) \<Rightarrow> string list \<Rightarrow> (string \<rightharpoonup> bool)" where
  "init_lastHealthy h [] = h"
| "init_lastHealthy h (mp # mps) = init_lastHealthy (h(mp \<mapsto> False)) mps"

text \<open>
  \<open>NewWatchdog\<close> creates and registers the histogram first, when the write test is enabled,
  then the four vectors of the struct literal in the order of its fields, sets the gauge
  \<open>build_info\<close> (a call of \<open>WithLabelValues\<close> on the program name and version) and fills
  the health map. It returns the watchdog and the registry it leaves.
\<close>

definition NewWatchdog ::
  "registry \<Rightarrow> string \<Rightarrow> string \<Rightarrow> string \<Rightarrow> string list \<Rightarrow> int \<Rightarrow> bool
     \<Rightarrow> panic + (Watchdog \<times> registry)" where
  "NewWatchdog reg programName programVersion namespace points interval enableWT =
     (case register_all reg
             ((if enableWT then [BuildFQName namespace ''write_test_duration_seconds''] else [])
              @ [BuildFQName namespace ''build_info'',
                 BuildFQName namespace ''mount_healthy'',
                 BuildFQName namespace ''checks_total'',
                 BuildFQName namespace ''remounts_total'']) of
        Inl p \<Rightarrow> Inl p
      | Inr reg' \<Rightarrow>
          if \<not> (ValidString programName \<and> ValidString programVersion)
          then Inl InvalidLabelValue
          else
            let writeTestMetric = (if enableWT then Some Map.empty else None)
            in Inr (\<lparr> mountPoints = points,
                      checkInterval = interval,
                      enableWriteTest = enableWT,
                      lastHealthy = init_lastHealthy Map.empty points,
                      buildInfo = [(programName, programVersion) \<mapsto> 1],
                      nfsMountHealthy = Map.empty,
                      nfsChecksTotal = Map.empty,
                      nfsRemountsTotal = Map.empty,
                      nfsWriteTestDuration = writeTestMetric \<rparr>, reg'))"

definition setHealthy :: "Watchdog \<Rightarrow> string \<Rightarrow> bool \<Rightarrow> Watchdog" where
  "setHealthy m mountPoint healthy = m\<lparr>lastHealthy := (lastHealthy m)(mountPoint \<mapsto> healthy)\<rparr>"

text \<open>Reading a Go map at a key it does not hold gives the zero value, \<open>false\<close>.\<close>

definition map_read :: "(string \<rightharpoonup> bool) \<Rightarrow> string \<Rightarrow> bool" where
  "map_read h k = (case h k of None \<Rightarrow> False | Some v \<Rightarrow> v)"

fun IsHealthy_loop :: "(string \<rightharpoonup> bool) \<Rightarrow> string list \<Rightarrow> bool" where
  "IsHealthy_loop h [] = True"
| "IsHealthy_loop h (mp # mps) = (if \<not> map_read h mp then False else IsHealthy_loop h mps)"

definition IsHealthy :: "Watchdog \<Rightarrow> bool" where
  "IsHealthy m = IsHealthy_loop (lastHealthy m) (mountPoints m)"

text \<open>The pair \<open>(h, ok)\<close> of the two-valued map read.\<close>

definition IsMountHealthy :: "Watchdog \<Rightarrow> string \<Rightarrow> bool \<times> bool" where
  "IsMountHealthy m mountPoint =
     (case lastHealthy m mountPoint of None \<Rightarrow> (False, False) | Some h \<Rightarrow> (h, True))"

subsection \<open>The check of one mount point\<close>

fun scan_mounts :: "string \<Rightarrow> string list \<Rightarrow> bool" where
  "scan_mounts mountPoint [] = False"
| "scan_mounts mountPoint (line # rest) =
     (let fields = Fields line
      in if length fields < 3 then scan_mounts mountPoint rest
         else let mp = fields ! 1; fsType = fields ! 2
              in if mp = mountPoint \<and> (fsType = ''nfs'' \<or> HasPrefix fsType ''nfs4'')
                 then True
                 else scan_mounts mountPoint rest)"

definition isOnNFS :: "os_state \<Rightarrow> string \<Rightarrow> bool \<times> mounts_error option" where
  "isOnNFS os mountPoint =
     (case proc_mounts os of
        Inl err \<Rightarrow> (False, Some (OpenFailed err))
      | Inr (lines, scan_err) \<Rightarrow>
          if scan_mounts mountPoint lines then (True, None)
          else (case scan_err of
                  Some err \<Rightarrow> (False, Some (ScanFailed err))
                | None \<Rightarrow> (False, Some MountPointNotFound)))"

text \<open>
  The deferred \<open>timer.ObserveDuration()\<close> runs on every return of \<open>writeTest\<close>: the sample is
  in the histogram whatever the outcome. \<open>WithLabelValues\<close> on a nil vector panics, and so
  does \<open>WithLabelValues\<close> on a mount point that is not valid UTF-8, before the timer starts
  and before any file is written.
\<close>

definition observe :: "(string \<rightharpoonup> int list) \<Rightarrow> string \<Rightarrow> int \<Rightarrow> (string \<rightharpoonup> int list)" where
  "observe h lbl d = h(lbl \<mapsto> (case h lbl of None \<Rightarrow> [] | Some ds \<Rightarrow> ds) @ [d])"

text \<open>The line \<^verbatim>\<open>name := fmt.Sprintf(".nfs_mounter_test_%d_%d", os.Getpid(), time.Now().UnixNano())\<close>.\<close>

definition test_file_name :: "os_state \<Rightarrow> string" where
  "test_file_name os = ''.nfs_mounter_test_'' @ fmt_d (pid os) @ ''_'' @ fmt_d (now_nanos os)"

definition writeTest ::
  "Watchdog \<Rightarrow> os_state \<Rightarrow> string \<Rightarrow> panic + (os_error option \<times> Watchdog \<times> syscall list)" where
  "writeTest m os mountPoint =
     (case nfsWriteTestDuration m of
        None \<Rightarrow> Inl NilPointerDereference
      | Some h \<Rightarrow>
          if \<not> ValidString mountPoint then Inl InvalidLabelValue
          else
            let name = test_file_name os;
                m' = m\<lparr>nfsWriteTestDuration := Some (observe h mountPoint (timer_nanos os))\<rparr>
            in (case writefile_result os mountPoint name of
                  Some err \<Rightarrow> Inr (Some err, m', [WriteFile mountPoint name])
                | None \<Rightarrow>
                    (case remove_result os mountPoint name of
                       Some err \<Rightarrow>
                         Inr (Some err, m', [WriteFile mountPoint name, Remove mountPoint name])
                     | None \<Rightarrow>
                         Inr (None, m', [WriteFile mountPoint name, Remove mountPoint name]))))"

definition checkMounted ::
  "Watchdog \<Rightarrow> os_state \<Rightarrow> string \<Rightarrow> panic + (check_error option \<times> Watchdog \<times> syscall list)" where
  "checkMounted m os mountPoint =
     (case stat_result os mountPoint of
        Inl err \<Rightarrow> Inr (Some (StatFailed err), m, [Stat mountPoint])
      | Inr is_dir \<Rightarrow>
          if \<not> is_dir then Inr (Some NotADirectory, m, [Stat mountPoint])
          else
            (case isOnNFS os mountPoint of
               (isNFS, Some err) \<Rightarrow>
                 Inr (Some (CheckingProcMountsFailed err), m, [Stat mountPoint, OpenProcMounts])
             | (isNFS, None) \<Rightarrow>
                 if \<not> isNFS then Inr (Some NotAnNFSMount, m, [Stat mountPoint, OpenProcMounts])
                 else if enableWriteTest m then
                   (case writeTest m os mountPoint of
                      Inl p \<Rightarrow> Inl p
                    | Inr (Some err, m', calls) \<Rightarrow>
                        Inr (Some (WriteTestFailed err), m', [Stat mountPoint, OpenProcMounts] @ calls)
                    | Inr (None, m', calls) \<Rightarrow>
                        Inr (None, m', [Stat mountPoint, OpenProcMounts] @ calls))
                 else Inr (None, m, [Stat mountPoint, OpenProcMounts])))"

definition inc :: "('k \<rightharpoonup> nat) \<Rightarrow> 'k \<Rightarrow> ('k \<rightharpoonup> nat)" where
  "inc c k = c(k \<mapsto> (case c k of None \<Rightarrow> 0 | Some n \<Rightarrow> n) + 1)"

text \<open>
  Both branches of \<open>CheckMountPoint\<close> start with \<open>nfsChecksTotal.WithLabelValues(mountPoint, _)\<close>,
  which panics on a mount point that is not valid UTF-8, before any counter is changed
  and before \<open>setHealthy\<close>.
\<close>

definition CheckMountPoint ::
  "Watchdog \<Rightarrow> os_state \<Rightarrow> string \<Rightarrow> panic + (Watchdog \<times> syscall list)" where
  "CheckMountPoint m os mountPoint =
     (case checkMounted m os mountPoint of
        Inl p \<Rightarrow> Inl p
      | Inr (Some err, m1, calls) \<Rightarrow>
          if \<not> ValidString mountPoint then Inl InvalidLabelValue
          else
            Inr (setHealthy
                   (m1\<lparr>nfsChecksTotal := inc (nfsChecksTotal m1) (mountPoint, ''error''),
                       nfsMountHealthy := (nfsMountHealthy m1)(mountPoint \<mapsto> 0)\<rparr>)
                   mountPoint False, calls)
      | Inr (None, m1, calls) \<Rightarrow>
          if \<not> ValidString mountPoint then Inl InvalidLabelValue
          else
            Inr (setHealthy
                   (m1\<lparr>nfsChecksTotal := inc (nfsChecksTotal m1) (mountPoint, ''ok''),
                       nfsMountHealthy := (nfsMountHealthy m1)(mountPoint \<mapsto> 1)\<rparr>)
                   mountPoint True, calls))"

fun CheckAll_loop ::
  "Watchdog \<Rightarrow> os_state \<Rightarrow> string list \<Rightarrow> panic + (Watchdog \<times> syscall list)" where
  "CheckAll_loop m os [] = Inr (m, [])"
| "CheckAll_loop m os (mp # mps) =
     (case CheckMountPoint m os mp of
        Inl p \<Rightarrow> Inl p
      | Inr (m', calls) \<Rightarrow>
          (case CheckAll_loop m' os mps of
             Inl p \<Rightarrow> Inl p
           | Inr (m'', calls') \<Rightarrow> Inr (m'', calls @ calls')))"

definition CheckAll :: "Watchdog \<Rightarrow> os_state \<Rightarrow> panic + (Watchdog \<times> syscall list)" where
  "CheckAll m os = CheckAll_loop m os (mountPoints m)"

subsection \<open>The run loop\<close>

text \<open>
  \<open>Start\<close> runs one pass, creates the ticker and then loops on a \<open>select\<close> with two cases:
  the context is done (return), or a tick arrived (one more pass). What the loop does
  depends on when the context is cancelled and when ticks arrive. A schedule is the list
  of the instants at which the \<open>select\<close> is evaluated: each says whether \<open>ctx.Done()\<close> is
  closed, whether a tick is pending in \<open>ticker.C\<close>, which case Go's runtime picks when both
  can proceed (the language leaves the choice to the runtime), and the state of the
  operating system that a pass started at this instant sees. With neither case ready the
  \<open>select\<close> waits for the next instant. A schedule that ends before the loop returns stands
  for a loop that is still waiting: \<open>None\<close>. The number returned with the watchdog counts the
  calls of \<open>CheckAll\<close> (the passes).
\<close>

record instant =
  ctx_done :: bool
  tick_ready :: bool
  picks_done :: bool
  os_now :: os_state

datatype select_case = CaseDone | CaseTick | Blocked

definition select_case_of :: "instant \<Rightarrow> select_case" where
  "select_case_of i =
     (if ctx_done i \<and> tick_ready i then (if picks_done i then CaseDone else CaseTick)
      else if ctx_done i then CaseDone
      else if tick_ready i then CaseTick
      else Blocked)"

fun Start_loop :: "Watchdog \<Rightarrow> nat \<Rightarrow> instant list \<Rightarrow> (panic + (Watchdog \<times> nat)) option" where
  "Start_loop m n [] = None"
| "Start_loop m n (i # sched) =
     (case select_case_of i of
        CaseDone \<Rightarrow> Some (Inr (m, n))
      | CaseTick \<Rightarrow>
          (case CheckAll m (os_now i) of
             Inl p \<Rightarrow> Some (Inl p)
           | Inr (m', calls) \<Rightarrow> Start_loop m' (Suc n) sched)
      | Blocked \<Rightarrow> Start_loop m n sched)"

definition Start :: "Watchdog \<Rightarrow> os_state \<Rightarrow> instant list \<Rightarrow> (panic + (Watchdog \<times> nat)) option" where
  "Start m os0 sched =
     (case CheckAll m os0 of
        Inl p \<Rightarrow> Some (Inl p)
      | Inr (m', calls) \<Rightarrow>
          if checkInterval m' \<le> 0 then Some (Inl NonPositiveTickerInterval)
          else Start_loop m' 1 sched)"

text \<open>
  The number of passes \<open>Start\<close> has run when it returns; \<open>None\<close> when it does not return,
  because it is still waiting or because it panicked.
\<close>

definition Start_passes :: "Watchdog \<Rightarrow> os_state \<Rightarrow> instant list \<Rightarrow> nat option" where
  "Start_passes m os0 sched =
     (case Start m os0 sched of
        Some (Inr (m', n)) \<Rightarrow> Some n
      | Some (Inl p) \<Rightarrow> None
      | None \<Rightarrow> None)"

section \<open>The HTTP handlers\<close>

text \<open>
  A handler is a function from the request path to the response written: status and
  body. \<open>http.Error\<close> writes the message and a line feed; \<open>http.NotFound\<close> is
  \<open>http.Error\<close> with the message \<open>404 page not found\<close> and status 404.
\<close>

record HealthHandlers =
  watchdog :: Watchdog
  healthPath :: string
  mountPointsSubpath :: string

record response =
  status :: nat
  body :: string

definition NewHealthHandler :: "Watchdog \<Rightarrow> string \<Rightarrow> string \<Rightarrow> HealthHandlers" where
  "NewHealthHandler w hp sub = \<lparr>watchdog = w, healthPath = hp, mountPointsSubpath = sub\<rparr>"

definition http_Error :: "string \<Rightarrow> nat \<Rightarrow> response" where
  "http_Error msg code = \<lparr>status = code, body = msg @ [CHR 0x0A]\<rparr>"

definition http_NotFound :: response where
  "http_NotFound = http_Error ''404 page not found'' 404"

text \<open>The line \<^verbatim>\<open>mp := "/" + strings.TrimPrefix(raw, "/")\<close> of \<open>HandleMountPoints\<close>.\<close>

definition mount_point_of_raw :: "string \<Rightarrow> string" where
  "mount_point_of_raw raw = ''/'' @ TrimPrefix raw ''/''"

definition HandleMountPoints :: "HealthHandlers \<Rightarrow> string \<Rightarrow> response" where
  "HandleMountPoints s path =
     (let pre = healthPath s @ ''/'' @ mountPointsSubpath s
      in if \<not> HasPrefix path pre then http_NotFound
         else let raw = TrimPrefix path pre
              in if raw = [] then http_Error ''mount point path required'' 400
                 else let mp = mount_point_of_raw raw
                      in (case IsMountHealthy (watchdog s) mp of
                            (healthy, ok) \<Rightarrow>
                              if \<not> ok then http_NotFound
                              else if healthy then \<lparr>status = 200, body = ''ok'' @ [CHR 0x0A]\<rparr>
                              else \<lparr>status = 503, body = ''unhealthy'' @ [CHR 0x0A]\<rparr>))"

definition HandleMain :: "HealthHandlers \<Rightarrow> response" where
  "HandleMain s =
     (if IsHealthy (watchdog s) then \<lparr>status = 200, body = ''ok'' @ [CHR 0x0A]\<rparr>
      else \<lparr>status = 503, body = ''unhealthy'' @ [CHR 0x0A]\<rparr>)"

section \<open>States the program can reach\<close>


text \<open>
  The methods of the package can also be called one by one, on any mount point: the
  states reachable through every state-changing operation of the watchdog.
\<close>

inductive api_reachable :: "Watchdog \<Rightarrow> bool" where
  api_new: "NewWatchdog reg pn pv ns points iv wt = Inr (m, reg') \<Longrightarrow> api_reachable m"
| api_set: "api_reachable m \<Longrightarrow> api_reachable (setHealthy m mp h)"
| api_write: "api_reachable m \<Longrightarrow> writeTest m os mp = Inr (err, m', calls) \<Longrightarrow> api_reachable m'"
| api_check: "api_reachable m \<Longrightarrow> CheckMountPoint m os mp = Inr (m', calls) \<Longrightarrow> api_reachable m'"
| api_all: "api_reachable m \<Longrightarrow> CheckAll m os = Inr (m', calls) \<Longrightarrow> api_reachable m'"
| api_start: "api_reachable m \<Longrightarrow> Start m os sched = Some (Inr (m', n)) \<Longrightarrow> api_reachable m'"


definition samples :: "Watchdog \<Rightarrow> string \<Rightarrow> int list" where
  "samples m lbl =
     (case nfsWriteTestDuration m of
        None \<Rightarrow> []
      | Some h \<Rightarrow> (case h lbl of None \<Rightarrow> [] | Some ds \<Rightarrow> ds))"

fun is_write_attempt :: "syscall \<Rightarrow> bool" where
  "is_write_attempt (WriteFile d f) = True"
| "is_write_attempt c = False"


text \<open>A sequence of \<open>setHealthy\<close> calls, each a mount point and a value.\<close>

fun apply_sets :: "Watchdog \<Rightarrow> (string \<times> bool) list \<Rightarrow> Watchdog" where
  "apply_sets m [] = m"
| "apply_sets m ((mp, v) # ops) = apply_sets (setHealthy m mp v) ops"

text \<open>
  The last value a sequence of calls stored for a mount point, given what was stored
  before the sequence (\<open>None\<close>: nothing).
\<close>

fun last_set :: "bool option \<Rightarrow> (string \<times> bool) list \<Rightarrow> string \<Rightarrow> bool option" where
  "last_set prev [] mp = prev"
| "last_set prev ((k, v) # ops) mp = last_set (if k = mp then Some v else prev) ops mp"

section \<open>Concrete inputs\<close>

text \<open>
  A machine on which \<open>/mnt/a\<close> is a directory and nothing else exists. In \<open>os_ext4\<close> the
  mount table is readable and lists \<open>/mnt/a\<close> with the file system type \<open>ext4\<close>; in
  \<open>os_unreadable\<close> the mount table cannot be opened; in \<open>os_nfs\<close> it lists \<open>/mnt/a\<close> as
  \<open>nfs4\<close>; in \<open>os_readonly\<close> the mount is \<open>nfs4\<close> and creating a file fails.
\<close>

definition os_ext4 :: os_state where
  "os_ext4 =
     \<lparr> stat_result = (\<lambda>p. if p = ''/mnt/a'' then Inr True else Inl ''no such file or directory''),
       proc_mounts = Inr ([''/dev/sda1 /mnt/a ext4 rw,relatime 0 0''], None),
       writefile_result = (\<lambda>d f. None),
       remove_result = (\<lambda>d f. None),
       pid = 1, now_nanos = 0, timer_nanos = 5 \<rparr>"

definition os_unreadable :: os_state where
  "os_unreadable = os_ext4\<lparr>proc_mounts := Inl ''permission denied''\<rparr>"

definition os_nfs :: os_state where
  "os_nfs = os_ext4\<lparr>proc_mounts := Inr ([''server:/export /mnt/a nfs4 rw,relatime 0 0''], None)\<rparr>"

definition os_readonly :: os_state where
  "os_readonly = os_nfs\<lparr>writefile_result := (\<lambda>d f. Some ''read-only file system'')\<rparr>"

text \<open>
  A registry with nothing registered, whose library accepts every non-empty name, and
  the watchdogs \<open>NewWatchdog\<close> builds on it for the mount point \<open>/mnt/a\<close>, without and with
  the write test.
\<close>

definition registry0 :: registry where
  "registry0 = \<lparr>registered = [], name_valid = (\<lambda>n. n \<noteq> [])\<rparr>"

definition watchdog_a :: Watchdog where
  "watchdog_a =
     \<lparr> mountPoints = [''/mnt/a''],
       checkInterval = 30000000000,
       enableWriteTest = False,
       lastHealthy = [''/mnt/a'' \<mapsto> False],
       buildInfo = [(''nfs_mounter_agent'', ''dev'') \<mapsto> 1],
       nfsMountHealthy = Map.empty,
       nfsChecksTotal = Map.empty,
       nfsRemountsTotal = Map.empty,
       nfsWriteTestDuration = None \<rparr>"

definition watchdog_a_wt :: Watchdog where
  "watchdog_a_wt = watchdog_a\<lparr>enableWriteTest := True, nfsWriteTestDuration := Some Map.empty\<rparr>"

definition registry_a :: registry where
  "registry_a =
     registry0\<lparr>registered := [''nfsma_build_info'', ''nfsma_mount_healthy'',
                               ''nfsma_checks_total'', ''nfsma_remounts_total'']\<rparr>"

definition registry_a_wt :: registry where
  "registry_a_wt =
     registry0\<lparr>registered := [''nfsma_write_test_duration_seconds'', ''nfsma_build_info'',
                               ''nfsma_mount_healthy'', ''nfsma_checks_total'',
                               ''nfsma_remounts_total'']\<rparr>"

text \<open>
  Two instants of a schedule: at \<open>instant_cancelled\<close> the context is done and no tick is
  pending; at \<open>instant_both\<close> the context is done, a tick is pending and the runtime picks
  the tick.
\<close>

definition instant_cancelled :: instant where
  "instant_cancelled = \<lparr>ctx_done = True, tick_ready = False, picks_done = True, os_now = os_ext4\<rparr>"

definition instant_both :: instant where
  "instant_both = \<lparr>ctx_done = True, tick_ready = True, picks_done = False, os_now = os_ext4\<rparr>"

definition os_file :: os_state where
  "os_file = os_ext4\<lparr>stat_result := (\<lambda>p. Inr False)\<rparr>"

text \<open>
  The watchdog of two mount points; \<open>healthy_a\<close> is \<open>watchdog_a\<close> after one successful check
  of \<open>/mnt/a\<close>; the handlers are configured as \<open>main\<close> configures them.
\<close>

definition watchdog_ab :: Watchdog where
  "watchdog_ab =
     watchdog_a\<lparr>mountPoints := [''/mnt/a'', ''/mnt/b''],
                 lastHealthy := [''/mnt/a'' \<mapsto> False, ''/mnt/b'' \<mapsto> False]\<rparr>"

definition healthy_a :: Watchdog where
  "healthy_a =
     setHealthy
       (watchdog_a\<lparr>nfsChecksTotal := inc (nfsChecksTotal watchdog_a) (''/mnt/a'', ''ok''),
                   nfsMountHealthy := (nfsMountHealthy watchdog_a)(''/mnt/a'' \<mapsto> 1)\<rparr>)
       ''/mnt/a'' True"

definition handlers_a :: HealthHandlers where
  "handlers_a = NewHealthHandler healthy_a ''/health'' ''mount-points/''"

definition handlers_a0 :: HealthHandlers where
  "handlers_a0 = NewHealthHandler watchdog_a ''/health'' ''mount-points/''"

text \<open>An instant at which the context is not done and a tick is pending.\<close>

definition instant_tick :: instant where
  "instant_tick = \<lparr>ctx_done = False, tick_ready = True, picks_done = False, os_now = os_nfs\<rparr>"

text \<open>
  A mount point that is an absolute path and not valid UTF-8, \<open>/mnt/\<close> followed by the
  byte \<open>0xFF\<close>, and the watchdog \<open>NewWatchdog\<close> builds for it with the write test enabled.
\<close>

definition mount_ff :: string where
  "mount_ff = ''/mnt/'' @ [CHR 0xFF]"

definition watchdog_ff :: Watchdog where
  "watchdog_ff =
     watchdog_a_wt\<lparr>mountPoints := [mount_ff], lastHealthy := [mount_ff \<mapsto> False]\<rparr>"

section \<open>Facts about the operations\<close>

subsection \<open>The health map\<close>


lemma init_lastHealthy_value:
  "init_lastHealthy h pts mp = (if mp \<in> set pts then Some False else h mp)"
  by (induction pts arbitrary: h) auto

lemma register_all_registered:
  assumes "register_all reg fqs = Inr reg'"
  shows "registered reg' = registered reg @ fqs \<and> name_valid reg' = name_valid reg"
  using assms
proof (induction fqs arbitrary: reg)
  case Nil
  then show ?case by simp
next
  case (Cons fq fqs)
  from Cons.prems obtain r1 where
    s1: "MustRegister reg fq = Inr r1" and s2: "register_all r1 fqs = Inr reg'"
    by (auto split: sum.splits)
  from s1 have "registered r1 = registered reg @ [fq] \<and> name_valid r1 = name_valid reg"
    by (auto simp add: MustRegister_def split: if_splits)
  with Cons.IH [OF s2] show ?case by simp
qed

lemma register_all_returns:
  assumes "\<forall>fq\<in>set fqs. name_valid reg fq \<and> fq \<notin> set (registered reg)"
    and "distinct fqs"
  shows "\<exists>reg'. register_all reg fqs = Inr reg'"
  using assms
proof (induction fqs arbitrary: reg)
  case Nil
  then show ?case by simp
next
  case (Cons fq fqs)
  let ?r1 = "reg\<lparr>registered := registered reg @ [fq]\<rparr>"
  from Cons.prems have s1: "MustRegister reg fq = Inr ?r1"
    by (simp add: MustRegister_def)
  from Cons.prems
  have "\<forall>f\<in>set fqs. name_valid ?r1 f \<and> f \<notin> set (registered ?r1)" and "distinct fqs"
    by auto
  from Cons.IH [OF this] s1 show ?case by simp
qed

lemma NewWatchdog_Inr:
  assumes "NewWatchdog reg pn pv ns pts iv wt = Inr (m, reg')"
  shows "m = \<lparr> mountPoints = pts, checkInterval = iv, enableWriteTest = wt,
               lastHealthy = init_lastHealthy Map.empty pts,
               buildInfo = [(pn, pv) \<mapsto> 1],
               nfsMountHealthy = Map.empty, nfsChecksTotal = Map.empty,
               nfsRemountsTotal = Map.empty,
               nfsWriteTestDuration = (if wt then Some Map.empty else None) \<rparr>"
    and "registered reg' =
           registered reg
           @ (if wt then [BuildFQName ns ''write_test_duration_seconds''] else [])
           @ [BuildFQName ns ''build_info'', BuildFQName ns ''mount_healthy'',
              BuildFQName ns ''checks_total'', BuildFQName ns ''remounts_total'']"
    and "ValidString pn" and "ValidString pv"
proof -
  from assms obtain r where
    r: "register_all reg
          ((if wt then [BuildFQName ns ''write_test_duration_seconds''] else [])
           @ [BuildFQName ns ''build_info'', BuildFQName ns ''mount_healthy'',
              BuildFQName ns ''checks_total'', BuildFQName ns ''remounts_total'']) = Inr r"
    by (auto simp add: NewWatchdog_def split: sum.splits)
  from assms r have v: "ValidString pn \<and> ValidString pv" and e: "reg' = r"
    and m: "m = \<lparr> mountPoints = pts, checkInterval = iv, enableWriteTest = wt,
               lastHealthy = init_lastHealthy Map.empty pts,
               buildInfo = [(pn, pv) \<mapsto> 1],
               nfsMountHealthy = Map.empty, nfsChecksTotal = Map.empty,
               nfsRemountsTotal = Map.empty,
               nfsWriteTestDuration = (if wt then Some Map.empty else None) \<rparr>"
    by (auto simp add: NewWatchdog_def Let_def split: if_splits)
  from m show "m = \<lparr> mountPoints = pts, checkInterval = iv, enableWriteTest = wt,
               lastHealthy = init_lastHealthy Map.empty pts,
               buildInfo = [(pn, pv) \<mapsto> 1],
               nfsMountHealthy = Map.empty, nfsChecksTotal = Map.empty,
               nfsRemountsTotal = Map.empty,
               nfsWriteTestDuration = (if wt then Some Map.empty else None) \<rparr>" .
  from register_all_registered [OF r] e
  show "registered reg' =
           registered reg
           @ (if wt then [BuildFQName ns ''write_test_duration_seconds''] else [])
           @ [BuildFQName ns ''build_info'', BuildFQName ns ''mount_healthy'',
              BuildFQName ns ''checks_total'', BuildFQName ns ''remounts_total'']"
    by simp
  from v show "ValidString pn" and "ValidString pv" by simp_all
qed

lemma BuildFQName_distinct:
  "distinct [BuildFQName ns ''write_test_duration_seconds'', BuildFQName ns ''build_info'',
             BuildFQName ns ''mount_healthy'', BuildFQName ns ''checks_total'',
             BuildFQName ns ''remounts_total'']"
  by (simp add: BuildFQName_def)

lemma NewWatchdog_returns:
  assumes "ValidString pn" and "ValidString pv"
    and "\<forall>fq\<in>set [BuildFQName ns ''write_test_duration_seconds'', BuildFQName ns ''build_info'',
                    BuildFQName ns ''mount_healthy'', BuildFQName ns ''checks_total'',
                    BuildFQName ns ''remounts_total''].
           name_valid reg fq \<and> fq \<notin> set (registered reg)"
  shows "\<exists>m reg'. NewWatchdog reg pn pv ns pts iv wt = Inr (m, reg')"
proof -
  let ?names = "(if wt then [BuildFQName ns ''write_test_duration_seconds''] else [])
           @ [BuildFQName ns ''build_info'', BuildFQName ns ''mount_healthy'',
              BuildFQName ns ''checks_total'', BuildFQName ns ''remounts_total'']"
  from assms(3) have a: "\<forall>fq\<in>set ?names. name_valid reg fq \<and> fq \<notin> set (registered reg)"
    by simp
  from BuildFQName_distinct [of ns] have d: "distinct ?names" by auto
  from register_all_returns [OF a d] obtain r where "register_all reg ?names = Inr r" by blast
  with assms(1,2) show ?thesis by (simp add: NewWatchdog_def)
qed

lemma NewWatchdog_mountPoints:
  assumes "NewWatchdog reg pn pv ns pts iv wt = Inr (m, reg')"
  shows "mountPoints m = pts"
  using NewWatchdog_Inr(1) [OF assms] by simp

lemma NewWatchdog_lastHealthy:
  assumes "NewWatchdog reg pn pv ns pts iv wt = Inr (m, reg')"
  shows "lastHealthy m k = (if k \<in> set pts then Some False else None)"
  using NewWatchdog_Inr(1) [OF assms] by (simp add: init_lastHealthy_value)

lemma IsHealthy_loop_all: "IsHealthy_loop h mps = (\<forall>mp\<in>set mps. h mp = Some True)"
  by (induction mps) (auto simp add: map_read_def split: option.splits)

lemma apply_sets_mountPoints: "mountPoints (apply_sets m ops) = mountPoints m"
  by (induction m ops rule: apply_sets.induct) (simp_all add: setHealthy_def)

lemma apply_sets_lastHealthy:
  "lastHealthy (apply_sets m ops) mp = last_set (lastHealthy m mp) ops mp"
  by (induction m ops rule: apply_sets.induct) (simp_all add: setHealthy_def)

subsection \<open>What a check leaves unchanged\<close>

lemma writeTest_frame:
  assumes "writeTest m os mp = Inr (err, m', calls)"
  shows "mountPoints m' = mountPoints m \<and> lastHealthy m' = lastHealthy m \<and>
         checkInterval m' = checkInterval m \<and> enableWriteTest m' = enableWriteTest m \<and>
         nfsRemountsTotal m' = nfsRemountsTotal m \<and>
         (nfsWriteTestDuration m' \<noteq> None) = (nfsWriteTestDuration m \<noteq> None)"
  using assms
  by (auto simp add: writeTest_def Let_def split: option.splits if_splits)

lemma checkMounted_frame:
  assumes "checkMounted m os mp = Inr (err, m', calls)"
  shows "mountPoints m' = mountPoints m \<and> lastHealthy m' = lastHealthy m \<and>
         checkInterval m' = checkInterval m \<and> enableWriteTest m' = enableWriteTest m \<and>
         nfsRemountsTotal m' = nfsRemountsTotal m \<and>
         (nfsWriteTestDuration m' \<noteq> None) = (nfsWriteTestDuration m \<noteq> None)"
proof (cases "\<exists>e c. writeTest m os mp = Inr (e, m', c)")
  case True
  then show ?thesis using writeTest_frame by blast
next
  case False
  then have "m' = m" using assms
    by (auto simp add: checkMounted_def split: sum.splits if_splits prod.splits option.splits)
  then show ?thesis by simp
qed

lemma CheckMountPoint_frame:
  assumes "CheckMountPoint m os mp = Inr (m', calls)"
  shows "mountPoints m' = mountPoints m \<and>
         dom (lastHealthy m') = insert mp (dom (lastHealthy m)) \<and>
         checkInterval m' = checkInterval m \<and> enableWriteTest m' = enableWriteTest m \<and>
         nfsRemountsTotal m' = nfsRemountsTotal m \<and>
         (nfsWriteTestDuration m' \<noteq> None) = (nfsWriteTestDuration m \<noteq> None)"
proof -
  obtain err m1 where c: "checkMounted m os mp = Inr (err, m1, calls)"
    and m': "m' = setHealthy
                 (m1\<lparr>nfsChecksTotal :=
                        inc (nfsChecksTotal m1) (mp, if err = None then ''ok'' else ''error''),
                     nfsMountHealthy :=
                        (nfsMountHealthy m1)(mp \<mapsto> if err = None then 1 else 0)\<rparr>)
                 mp (err = None)"
    using assms
    by (auto simp add: CheckMountPoint_def
        split: sum.splits prod.splits option.splits if_splits)
  from checkMounted_frame [OF c] show ?thesis
    by (simp add: m' setHealthy_def)
qed

lemma CheckAll_loop_frame:
  assumes "CheckAll_loop m os mps = Inr (m', calls)"
  shows "mountPoints m' = mountPoints m \<and>
         dom (lastHealthy m') = dom (lastHealthy m) \<union> set mps \<and>
         checkInterval m' = checkInterval m \<and> enableWriteTest m' = enableWriteTest m \<and>
         nfsRemountsTotal m' = nfsRemountsTotal m \<and>
         (nfsWriteTestDuration m' \<noteq> None) = (nfsWriteTestDuration m \<noteq> None)"
  using assms
proof (induction mps arbitrary: m calls)
  case Nil
  then show ?case by simp
next
  case (Cons mp mps)
  from Cons.prems obtain m1 c1 c2 where
    s1: "CheckMountPoint m os mp = Inr (m1, c1)" and s2: "CheckAll_loop m1 os mps = Inr (m', c2)"
    by (auto split: sum.splits prod.splits)
  from CheckMountPoint_frame [OF s1] Cons.IH [OF s2] show ?case
    by auto
qed

lemma CheckAll_frame:
  assumes "CheckAll m os = Inr (m', calls)"
  shows "mountPoints m' = mountPoints m \<and>
         dom (lastHealthy m') = dom (lastHealthy m) \<union> set (mountPoints m) \<and>
         checkInterval m' = checkInterval m \<and> enableWriteTest m' = enableWriteTest m \<and>
         nfsRemountsTotal m' = nfsRemountsTotal m \<and>
         (nfsWriteTestDuration m' \<noteq> None) = (nfsWriteTestDuration m \<noteq> None)"
  using CheckAll_loop_frame [of m os "mountPoints m" m' calls] assms
  by (simp add: CheckAll_def)

lemma Start_loop_frame:
  assumes "Start_loop m n sched = Some (Inr (m', k))"
  shows "mountPoints m' = mountPoints m \<and>
         dom (lastHealthy m') \<subseteq> dom (lastHealthy m) \<union> set (mountPoints m) \<and>
         dom (lastHealthy m) \<subseteq> dom (lastHealthy m') \<and>
         checkInterval m' = checkInterval m \<and> enableWriteTest m' = enableWriteTest m \<and>
         nfsRemountsTotal m' = nfsRemountsTotal m \<and>
         (nfsWriteTestDuration m' \<noteq> None) = (nfsWriteTestDuration m \<noteq> None)"
  using assms
proof (induction sched arbitrary: m n)
  case Nil
  then show ?case by simp
next
  case (Cons i sched)
  show ?case
  proof (cases "select_case_of i")
    case CaseDone
    with Cons.prems show ?thesis by simp
  next
    case CaseTick
    with Cons.prems obtain m1 c1 where
      s1: "CheckAll m (os_now i) = Inr (m1, c1)"
      and s2: "Start_loop m1 (Suc n) sched = Some (Inr (m', k))"
      by (auto split: sum.splits prod.splits)
    from CheckAll_frame [OF s1] Cons.IH [OF s2] show ?thesis
      by auto
  next
    case Blocked
    with Cons.prems have "Start_loop m n sched = Some (Inr (m', k))" by simp
    from Cons.IH [OF this] show ?thesis .
  qed
qed

lemma Start_frame:
  assumes "Start m os sched = Some (Inr (m', k))"
  shows "mountPoints m' = mountPoints m \<and>
         dom (lastHealthy m') = dom (lastHealthy m) \<union> set (mountPoints m) \<and>
         checkInterval m' = checkInterval m \<and> enableWriteTest m' = enableWriteTest m \<and>
         nfsRemountsTotal m' = nfsRemountsTotal m \<and>
         (nfsWriteTestDuration m' \<noteq> None) = (nfsWriteTestDuration m \<noteq> None)"
proof -
  from assms obtain m1 c1 where
    s1: "CheckAll m os = Inr (m1, c1)" and s2: "Start_loop m1 1 sched = Some (Inr (m', k))"
    by (auto simp add: Start_def split: sum.splits prod.splits if_splits)
  from CheckAll_frame [OF s1] Start_loop_frame [OF s2] show ?thesis
    by auto
qed


lemma api_reachable_inv:
  assumes "api_reachable m"
  shows "nfsRemountsTotal m = Map.empty \<and> (nfsWriteTestDuration m \<noteq> None) = enableWriteTest m"
  using assms
proof (induction rule: api_reachable.induct)
  case (api_new reg pn pv ns points iv wt m reg')
  from NewWatchdog_Inr(1) [OF api_new] show ?case by simp
next
  case (api_set m mp h)
  then show ?case by (simp add: setHealthy_def)
next
  case (api_write m os mp err m' calls)
  from writeTest_frame [OF api_write.hyps(2)] api_write.IH show ?case by auto
next
  case (api_check m os mp m' calls)
  from CheckMountPoint_frame [OF api_check.hyps(2)] api_check.IH show ?case by auto
next
  case (api_all m os m' calls)
  from CheckAll_frame [OF api_all.hyps(2)] api_all.IH show ?case by auto
next
  case (api_start m os sched m' n)
  from Start_frame [OF api_start.hyps(2)] api_start.IH show ?case by auto
qed

subsection \<open>The write test and the panics\<close>

lemma writeTest_result:
  assumes "nfsWriteTestDuration m = Some h" and "ValidString mp"
  shows "writeTest m os mp =
     Inr (case writefile_result os mp (test_file_name os) of
            Some err \<Rightarrow> Some err
          | None \<Rightarrow> remove_result os mp (test_file_name os),
          m\<lparr>nfsWriteTestDuration := Some (observe h mp (timer_nanos os))\<rparr>,
          case writefile_result os mp (test_file_name os) of
            Some err \<Rightarrow> [WriteFile mp (test_file_name os)]
          | None \<Rightarrow> [WriteFile mp (test_file_name os), Remove mp (test_file_name os)])"
  using assms by (simp add: writeTest_def Let_def split: option.splits)

lemma writeTest_Inr:
  assumes "writeTest m os mp = Inr (err, m', calls)"
  shows "\<exists>h. nfsWriteTestDuration m = Some h \<and> ValidString mp \<and>
           m' = m\<lparr>nfsWriteTestDuration := Some (observe h mp (timer_nanos os))\<rparr> \<and>
           err = (case writefile_result os mp (test_file_name os) of
                    Some e \<Rightarrow> Some e
                  | None \<Rightarrow> remove_result os mp (test_file_name os)) \<and>
           calls = (case writefile_result os mp (test_file_name os) of
                      Some e \<Rightarrow> [WriteFile mp (test_file_name os)]
                    | None \<Rightarrow> [WriteFile mp (test_file_name os),
                                Remove mp (test_file_name os)])"
  using assms
  by (auto simp add: writeTest_def Let_def split: option.splits if_splits)

lemma writeTest_invalid_label:
  assumes "\<not> ValidString mp"
  shows "writeTest m os mp =
           Inl (if nfsWriteTestDuration m = None then NilPointerDereference
                else InvalidLabelValue)"
  using assms by (simp add: writeTest_def split: option.splits)

lemma samples_observe:
  assumes "nfsWriteTestDuration m = Some h"
  shows "samples (m\<lparr>nfsWriteTestDuration := Some (observe h mp d)\<rparr>) k
          = (if k = mp then samples m mp @ [d] else samples m k)"
  using assms by (simp add: samples_def observe_def split: option.splits)

lemma checkMounted_no_panic:
  assumes "enableWriteTest m \<longrightarrow> nfsWriteTestDuration m \<noteq> None" and "ValidString mp"
  shows "\<exists>r. checkMounted m os mp = Inr r"
proof (cases "enableWriteTest m")
  case True
  with assms obtain h where h: "nfsWriteTestDuration m = Some h" by auto
  show ?thesis
    by (simp add: checkMounted_def writeTest_result [OF h assms(2)]
        split: sum.splits prod.splits option.splits)
next
  case False
  then show ?thesis
    by (simp add: checkMounted_def split: sum.splits prod.splits option.splits)
qed

lemma checkMounted_panic:
  assumes "enableWriteTest m \<longrightarrow> nfsWriteTestDuration m \<noteq> None"
    and "checkMounted m os mp = Inl p"
  shows "p = InvalidLabelValue \<and> \<not> ValidString mp"
proof -
  from assms(2) have w: "writeTest m os mp = Inl p" and e: "enableWriteTest m"
    by (auto simp add: checkMounted_def
        split: sum.splits prod.splits option.splits if_splits)
  with assms(1) obtain h where "nfsWriteTestDuration m = Some h" by auto
  with w show ?thesis
    by (auto simp add: writeTest_def Let_def split: option.splits if_splits)
qed

lemma CheckMountPoint_no_panic:
  assumes "enableWriteTest m \<longrightarrow> nfsWriteTestDuration m \<noteq> None" and "ValidString mp"
  shows "\<exists>r. CheckMountPoint m os mp = Inr r"
proof -
  from checkMounted_no_panic [OF assms] obtain e m1 c
    where "checkMounted m os mp = Inr (e, m1, c)"
    by (metis prod_cases3)
  then show ?thesis using assms(2)
    by (simp add: CheckMountPoint_def split: option.splits)
qed

lemma CheckMountPoint_invalid_label:
  assumes "enableWriteTest m \<longrightarrow> nfsWriteTestDuration m \<noteq> None" and "\<not> ValidString mp"
  shows "CheckMountPoint m os mp = Inl InvalidLabelValue"
proof (cases "checkMounted m os mp")
  case (Inl p)
  with checkMounted_panic [OF assms(1) Inl] show ?thesis
    by (simp add: CheckMountPoint_def)
next
  case (Inr r)
  with assms(2) show ?thesis
    by (simp add: CheckMountPoint_def split: prod.splits option.splits)
qed

lemma CheckAll_loop_no_panic:
  assumes "enableWriteTest m \<longrightarrow> nfsWriteTestDuration m \<noteq> None"
    and "\<forall>mp\<in>set mps. ValidString mp"
  shows "\<exists>r. CheckAll_loop m os mps = Inr r"
  using assms
proof (induction mps arbitrary: m)
  case Nil
  then show ?case by simp
next
  case (Cons mp mps)
  from Cons.prems have v: "ValidString mp" and vs: "\<forall>mp\<in>set mps. ValidString mp" by auto
  from CheckMountPoint_no_panic [OF Cons.prems(1) v] obtain m1 c1 where
    s1: "CheckMountPoint m os mp = Inr (m1, c1)" by fastforce
  from CheckMountPoint_frame [OF s1] Cons.prems
  have "enableWriteTest m1 \<longrightarrow> nfsWriteTestDuration m1 \<noteq> None" by auto
  from Cons.IH [OF this vs] obtain m2 c2 where "CheckAll_loop m1 os mps = Inr (m2, c2)"
    by fastforce
  with s1 show ?case by simp
qed

lemma CheckAll_no_panic:
  assumes "enableWriteTest m \<longrightarrow> nfsWriteTestDuration m \<noteq> None"
    and "\<forall>mp\<in>set (mountPoints m). ValidString mp"
  shows "\<exists>m' calls. CheckAll m os = Inr (m', calls)"
  using CheckAll_loop_no_panic [OF assms, of os]
  by (auto simp add: CheckAll_def)

lemma CheckAll_loop_invalid_label:
  assumes "enableWriteTest m \<longrightarrow> nfsWriteTestDuration m \<noteq> None"
    and "\<exists>mp\<in>set mps. \<not> ValidString mp"
  shows "CheckAll_loop m os mps = Inl InvalidLabelValue"
  using assms
proof (induction mps arbitrary: m)
  case Nil
  then show ?case by simp
next
  case (Cons mp mps)
  show ?case
  proof (cases "ValidString mp")
    case False
    from CheckMountPoint_invalid_label [OF Cons.prems(1) False] show ?thesis by simp
  next
    case True
    with Cons.prems have ex: "\<exists>mp\<in>set mps. \<not> ValidString mp" by auto
    from CheckMountPoint_no_panic [OF Cons.prems(1) True] obtain m1 c1 where
      s1: "CheckMountPoint m os mp = Inr (m1, c1)" by fastforce
    from CheckMountPoint_frame [OF s1] Cons.prems
    have "enableWriteTest m1 \<longrightarrow> nfsWriteTestDuration m1 \<noteq> None" by auto
    from Cons.IH [OF this ex] s1 show ?thesis by simp
  qed
qed

lemma Start_invalid_label:
  assumes "enableWriteTest m \<longrightarrow> nfsWriteTestDuration m \<noteq> None"
    and "\<exists>mp\<in>set (mountPoints m). \<not> ValidString mp"
  shows "Start m os sched = Some (Inl InvalidLabelValue)"
  using CheckAll_loop_invalid_label [OF assms, of os]
  by (simp add: Start_def CheckAll_def)

lemma checkMounted_samples:
  assumes "checkMounted m os mp = Inr (e, m', calls)"
  shows "samples m' mp =
           samples m mp @ replicate (length (filter is_write_attempt calls)) (timer_nanos os)"
proof (cases "\<exists>err c. writeTest m os mp = Inr (err, m', c) \<and> calls = [Stat mp, OpenProcMounts] @ c")
  case True
  then obtain err c where w: "writeTest m os mp = Inr (err, m', c)"
    and c: "calls = [Stat mp, OpenProcMounts] @ c" by blast
  from writeTest_Inr [OF w] obtain h where h: "nfsWriteTestDuration m = Some h"
    and m': "m' = m\<lparr>nfsWriteTestDuration := Some (observe h mp (timer_nanos os))\<rparr>"
    and cs: "c = (case writefile_result os mp (test_file_name os) of
                      Some e \<Rightarrow> [WriteFile mp (test_file_name os)]
                    | None \<Rightarrow> [WriteFile mp (test_file_name os),
                                Remove mp (test_file_name os)])"
    by blast
  show ?thesis
    by (simp add: m' c cs samples_observe [OF h] split: option.splits)
next
  case False
  with assms have "m' = m \<and> filter is_write_attempt calls = []"
    by (auto simp add: checkMounted_def
        split: sum.splits prod.splits option.splits if_splits)
  then show ?thesis by simp
qed

lemma checkMounted_calls:
  assumes "checkMounted m os mp = Inr (e, m', calls)"
  shows "case e of
          Some (StatFailed x) \<Rightarrow> calls = [Stat mp]
        | Some NotADirectory \<Rightarrow> calls = [Stat mp]
        | Some (CheckingProcMountsFailed x) \<Rightarrow> calls = [Stat mp, OpenProcMounts]
        | Some NotAnNFSMount \<Rightarrow> calls = [Stat mp, OpenProcMounts]
        | Some (WriteTestFailed x) \<Rightarrow>
            enableWriteTest m \<and>
            (calls = [Stat mp, OpenProcMounts, WriteFile mp (test_file_name os)] \<or>
             calls = [Stat mp, OpenProcMounts, WriteFile mp (test_file_name os),
                      Remove mp (test_file_name os)])
        | None \<Rightarrow>
            calls = (if enableWriteTest m
                     then [Stat mp, OpenProcMounts, WriteFile mp (test_file_name os),
                           Remove mp (test_file_name os)]
                     else [Stat mp, OpenProcMounts])"
proof (cases "\<exists>err c. writeTest m os mp = Inr (err, m', c) \<and> enableWriteTest m \<and>
                 calls = [Stat mp, OpenProcMounts] @ c \<and>
                 e = (case err of Some x \<Rightarrow> Some (WriteTestFailed x) | None \<Rightarrow> None)")
  case True
  then obtain err c where w: "writeTest m os mp = Inr (err, m', c)"
    and en: "enableWriteTest m"
    and c: "calls = [Stat mp, OpenProcMounts] @ c"
    and e: "e = (case err of Some x \<Rightarrow> Some (WriteTestFailed x) | None \<Rightarrow> None)" by blast
  from writeTest_Inr [OF w] show ?thesis
    by (auto simp add: c e en split: option.splits)
next
  case False
  with assms show ?thesis
    by (auto simp add: checkMounted_def
        split: sum.splits prod.splits option.splits if_splits)
qed

lemma checkMounted_never_NotAnNFSMount:
  "checkMounted m os mp \<noteq> Inr (Some NotAnNFSMount, m', calls)"
  by (auto simp add: checkMounted_def isOnNFS_def
      split: sum.splits prod.splits option.splits if_splits)


subsection \<open>The run loop\<close>

lemma Start_loop_passes:
  assumes "enableWriteTest m \<longrightarrow> nfsWriteTestDuration m \<noteq> None"
    and "\<forall>mp\<in>set (mountPoints m). ValidString mp"
  shows "if \<exists>i\<in>set sched. select_case_of i = CaseDone
         then \<exists>m'. Start_loop m n sched =
                Some (Inr (m', n + length (filter (\<lambda>i. select_case_of i = CaseTick)
                                      (takeWhile (\<lambda>i. select_case_of i \<noteq> CaseDone) sched))))
         else Start_loop m n sched = None"
  using assms
proof (induction sched arbitrary: m n)
  case Nil
  then show ?case by simp
next
  case (Cons i sched)
  show ?case
  proof (cases "select_case_of i")
    case CaseDone
    then show ?thesis by simp
  next
    case CaseTick
    from CheckAll_no_panic [OF Cons.prems] obtain m1 c1 where
      s1: "CheckAll m (os_now i) = Inr (m1, c1)" by blast
    from CheckAll_frame [OF s1] Cons.prems
    have "enableWriteTest m1 \<longrightarrow> nfsWriteTestDuration m1 \<noteq> None"
      and "\<forall>mp\<in>set (mountPoints m1). ValidString mp" by auto
    from Cons.IH [OF this, of "Suc n"] CaseTick s1 show ?thesis
      by (auto split: if_splits)
  next
    case Blocked
    with Cons.IH [OF Cons.prems, of n] show ?thesis
      by (auto split: if_splits)
  qed
qed

lemma Start_passes_char:
  assumes wf: "enableWriteTest m \<longrightarrow> nfsWriteTestDuration m \<noteq> None"
    and vs: "\<forall>mp\<in>set (mountPoints m). ValidString mp"
    and iv: "0 < checkInterval m"
  shows "Start_passes m os0 sched =
     (if \<exists>i\<in>set sched. select_case_of i = CaseDone
      then Some (1 + length (filter (\<lambda>i. select_case_of i = CaseTick)
                              (takeWhile (\<lambda>i. select_case_of i \<noteq> CaseDone) sched)))
      else None)"
proof -
  from CheckAll_no_panic [OF wf vs] obtain m1 c1 where
    s1: "CheckAll m os0 = Inr (m1, c1)" by blast
  from CheckAll_frame [OF s1] wf vs iv
  have wf1: "enableWriteTest m1 \<longrightarrow> nfsWriteTestDuration m1 \<noteq> None"
    and vs1: "\<forall>mp\<in>set (mountPoints m1). ValidString mp"
    and iv1: "0 < checkInterval m1" by auto
  have st: "Start m os0 sched = Start_loop m1 1 sched"
    using s1 iv1 by (simp add: Start_def)
  show ?thesis
    using Start_loop_passes [OF wf1 vs1, of sched 1]
    by (auto simp add: Start_passes_def st split: if_splits)
qed

lemma Start_no_panic:
  assumes wf: "enableWriteTest m \<longrightarrow> nfsWriteTestDuration m \<noteq> None"
    and vs: "\<forall>mp\<in>set (mountPoints m). ValidString mp"
    and iv: "0 < checkInterval m"
  shows "Start m os0 sched \<noteq> Some (Inl p)"
proof -
  from CheckAll_no_panic [OF wf vs] obtain m1 c1 where
    s1: "CheckAll m os0 = Inr (m1, c1)" by blast
  from CheckAll_frame [OF s1] wf vs iv
  have wf1: "enableWriteTest m1 \<longrightarrow> nfsWriteTestDuration m1 \<noteq> None"
    and vs1: "\<forall>mp\<in>set (mountPoints m1). ValidString mp"
    and iv1: "0 < checkInterval m1" by auto
  have st: "Start m os0 sched = Start_loop m1 1 sched"
    using s1 iv1 by (simp add: Start_def)
  show ?thesis
    using Start_loop_passes [OF wf1 vs1, of sched 1]
    by (auto simp add: st split: if_splits)
qed

subsection \<open>The handlers\<close>

lemma mount_point_of_raw_slashes:
  "mount_point_of_raw raw =
     replicate (max 1 (length (takeWhile ((=) CHR ''/'') raw))) CHR ''/''
       @ dropWhile ((=) CHR ''/'') raw"
proof (cases raw)
  case Nil
  then show ?thesis by (simp add: mount_point_of_raw_def TrimPrefix_def HasPrefix_def)
next
  case (Cons c cs)
  show ?thesis
  proof (cases "c = CHR ''/''")
    case True
    have "replicate (length (takeWhile ((=) CHR ''/'') cs)) CHR ''/''
            = takeWhile ((=) CHR ''/'') cs"
      by (induction cs) auto
    then show ?thesis using Cons True
      by (simp add: mount_point_of_raw_def TrimPrefix_def HasPrefix_def max_def)
  next
    case False
    then show ?thesis using Cons
      by (auto simp add: mount_point_of_raw_def TrimPrefix_def HasPrefix_def)
  qed
qed

lemma HandleMountPoints_cases:
  assumes "HasPrefix path (healthPath s @ ''/'' @ mountPointsSubpath s)"
  shows "HandleMountPoints s path =
     (let raw = TrimPrefix path (healthPath s @ ''/'' @ mountPointsSubpath s)
      in if raw = [] then \<lparr>status = 400, body = ''mount point path required'' @ [CHR 0x0A]\<rparr>
         else (case lastHealthy (watchdog s) (mount_point_of_raw raw) of
                 None \<Rightarrow> \<lparr>status = 404, body = ''404 page not found'' @ [CHR 0x0A]\<rparr>
               | Some True \<Rightarrow> \<lparr>status = 200, body = ''ok'' @ [CHR 0x0A]\<rparr>
               | Some False \<Rightarrow> \<lparr>status = 503, body = ''unhealthy'' @ [CHR 0x0A]\<rparr>))"
  using assms
  by (simp add: HandleMountPoints_def Let_def IsMountHealthy_def http_Error_def
      http_NotFound_def split: option.splits bool.splits)

subsection \<open>The concrete inputs evaluated\<close>

lemma DecodeRune_ascii:
  "of_char c < (0x80 :: nat) \<Longrightarrow> DecodeRuneInString (c # s) = (of_char c, 1)"
  by (simp add: DecodeRuneInString_def DecodeRune_def)

lemma ValidString_ascii:
  assumes "\<forall>c\<in>set s. of_char c < (0x80 :: nat)"
  shows "ValidString s"
  using assms
proof (induction s)
  case Nil
  then show ?case by (simp add: ValidString.simps)
next
  case (Cons c s)
  then have d: "DecodeRuneInString (c # s) = (of_char c, 1)"
    by (simp add: DecodeRune_ascii)
  have "of_char c \<noteq> RuneError" using Cons.prems by (auto simp add: RuneError_def)
  with d Cons show ?case
    by (subst ValidString.simps) simp
qed

lemma ValidString_concrete:
  "ValidString ''nfs_mounter_agent''" "ValidString ''dev''"
  "ValidString ''/mnt/a''" "ValidString ''/mnt/b''"
  by (rule ValidString_ascii, simp)+

lemma mount_ff_invalid: "\<not> ValidString mount_ff"
  by (simp add: mount_ff_def ValidString.simps DecodeRuneInString_def DecodeRune_def
      RuneError_def)

lemma Fields_nbsp:
  "Fields (''/dev/sda1'' @ [CHR 0xC2, CHR 0xA0] @ ''/mnt/a nfs4'')
     = [''/dev/sda1'', ''/mnt/a'', ''nfs4'']"
  by (simp add: Fields_def FieldsFunc_from.simps DecodeRuneInString_def DecodeRune_def
      unicode_IsSpace_def RuneError_def Let_def)

lemma NewWatchdog_a:
  "NewWatchdog registry0 ''nfs_mounter_agent'' ''dev'' ''nfsma'' [''/mnt/a''] 30000000000 False
     = Inr (watchdog_a, registry_a)"
  by (simp add: NewWatchdog_def registry0_def registry_a_def watchdog_a_def MustRegister_def
      BuildFQName_def ValidString_concrete)

lemma NewWatchdog_a_wt:
  "NewWatchdog registry0 ''nfs_mounter_agent'' ''dev'' ''nfsma'' [''/mnt/a''] 30000000000 True
     = Inr (watchdog_a_wt, registry_a_wt)"
  by (simp add: NewWatchdog_def registry0_def registry_a_wt_def watchdog_a_wt_def
      watchdog_a_def MustRegister_def BuildFQName_def ValidString_concrete)

lemma NewWatchdog_ab:
  "NewWatchdog registry0 ''nfs_mounter_agent'' ''dev'' ''nfsma'' [''/mnt/a'', ''/mnt/b'']
       30000000000 False
     = Inr (watchdog_ab, registry_a)"
  by (simp add: NewWatchdog_def registry0_def registry_a_def watchdog_ab_def watchdog_a_def
      MustRegister_def BuildFQName_def ValidString_concrete)

lemma NewWatchdog_ff:
  "NewWatchdog registry0 ''nfs_mounter_agent'' ''dev'' ''nfsma'' [mount_ff] 30000000000 True
     = Inr (watchdog_ff, registry_a_wt)"
  by (simp add: NewWatchdog_def registry0_def registry_a_wt_def watchdog_ff_def
      watchdog_a_wt_def watchdog_a_def MustRegister_def BuildFQName_def ValidString_concrete)

lemma watchdog_a_fields:
  "mountPoints watchdog_a = [''/mnt/a'']"
  "enableWriteTest watchdog_a = False"
  "nfsWriteTestDuration watchdog_a = None"
  "checkInterval watchdog_a = 30000000000"
  "lastHealthy watchdog_a = [''/mnt/a'' \<mapsto> False]"
  by (simp_all add: watchdog_a_def)

lemma watchdog_a_wt_fields:
  "mountPoints watchdog_a_wt = [''/mnt/a'']"
  "enableWriteTest watchdog_a_wt = True"
  "nfsWriteTestDuration watchdog_a_wt = Some Map.empty"
  "checkInterval watchdog_a_wt = 30000000000"
  by (simp_all add: watchdog_a_wt_def watchdog_a_def)

lemma stat_concrete:
  "stat_result os_ext4 ''/mnt/a'' = Inr True"
  "stat_result os_unreadable ''/mnt/a'' = Inr True"
  "stat_result os_nfs ''/mnt/a'' = Inr True"
  "stat_result os_readonly ''/mnt/a'' = Inr True"
  "stat_result os_ext4 ''/mnt/b'' = Inl ''no such file or directory''"
  "stat_result os_file ''/mnt/a'' = Inr False"
  by (simp_all add: os_ext4_def os_unreadable_def os_nfs_def os_readonly_def os_file_def)

lemma Fields_ext4:
  "Fields ''/dev/sda1 /mnt/a ext4 rw,relatime 0 0''
     = [''/dev/sda1'', ''/mnt/a'', ''ext4'', ''rw,relatime'', ''0'', ''0'']"
  by (simp add: Fields_def isSpace_def)

lemma Fields_nfs:
  "Fields ''server:/export /mnt/a nfs4 rw,relatime 0 0''
     = [''server:/export'', ''/mnt/a'', ''nfs4'', ''rw,relatime'', ''0'', ''0'']"
  by (simp add: Fields_def isSpace_def)

lemma isOnNFS_concrete:
  "isOnNFS os_ext4 ''/mnt/a'' = (False, Some MountPointNotFound)"
  "isOnNFS os_unreadable ''/mnt/a'' = (False, Some (OpenFailed ''permission denied''))"
  "isOnNFS os_nfs ''/mnt/a'' = (True, None)"
  "isOnNFS os_readonly ''/mnt/a'' = (True, None)"
  by (simp_all add: isOnNFS_def os_ext4_def os_unreadable_def os_nfs_def os_readonly_def
      Fields_ext4 Fields_nfs HasPrefix_def)


lemma select_concrete:
  "select_case_of instant_cancelled = CaseDone"
  "select_case_of instant_both = CaseTick"
  "select_case_of instant_tick = CaseTick"
  by (simp_all add: select_case_of_def instant_cancelled_def instant_both_def instant_tick_def)

lemma watchdog_ff_fields:
  "mountPoints watchdog_ff = [mount_ff]"
  "enableWriteTest watchdog_ff = True"
  "nfsWriteTestDuration watchdog_ff = Some Map.empty"
  "checkInterval watchdog_ff = 30000000000"
  by (simp_all add: watchdog_ff_def watchdog_a_wt_def watchdog_a_def)

lemma os_readonly_write:
  "writefile_result os_readonly ''/mnt/a'' (test_file_name os_readonly)
     = Some ''read-only file system''"
  "timer_nanos os_readonly = 5"
  by (simp_all add: os_readonly_def os_nfs_def os_ext4_def)

lemma writeTest_readonly:
  "writeTest watchdog_a_wt os_readonly ''/mnt/a''
     = Inr (Some ''read-only file system'',
            watchdog_a_wt\<lparr>nfsWriteTestDuration := Some [''/mnt/a'' \<mapsto> [5]]\<rparr>,
            [WriteFile ''/mnt/a'' (test_file_name os_readonly)])"
  by (simp add: writeTest_result [OF watchdog_a_wt_fields(3) ValidString_concrete(3)]
      os_readonly_write observe_def)

lemma checkMounted_readonly:
  "checkMounted watchdog_a_wt os_readonly ''/mnt/a''
     = Inr (Some (WriteTestFailed ''read-only file system''),
            watchdog_a_wt\<lparr>nfsWriteTestDuration := Some [''/mnt/a'' \<mapsto> [5]]\<rparr>,
            [Stat ''/mnt/a'', OpenProcMounts, WriteFile ''/mnt/a'' (test_file_name os_readonly)])"
  by (simp add: checkMounted_def stat_concrete isOnNFS_concrete watchdog_a_wt_fields
      writeTest_readonly)

section \<open>The claims\<close>

subsection \<open>C1: decoding of the mount point in the per-mount endpoint\<close>

text \<open>
  C1, as stated, says that a non-empty suffix decodes to the suffix with exactly one
  leading slash however many it started with, so that \<open>//a/b\<close> would decode to \<open>/a/b\<close>.
  The handler removes at most one leading slash before it adds one: the suffix
  \<open>//mnt/a\<close> decodes to \<open>//mnt/a\<close>, and the request for it is answered 404 although
  \<open>/mnt/a\<close> is in the health map and healthy.
\<close>

theorem decode_two_slashes_counterexample:
  "mount_point_of_raw ''//mnt/a'' = ''//mnt/a'' \<and>
   mount_point_of_raw ''//mnt/a'' \<noteq> ''/mnt/a'' \<and>
   TrimPrefix ''/health/mount-points///mnt/a''
       (healthPath handlers_a @ ''/'' @ mountPointsSubpath handlers_a) = ''//mnt/a'' \<and>
   IsMountHealthy (watchdog handlers_a) ''/mnt/a'' = (True, True) \<and>
   HandleMountPoints handlers_a ''/health/mount-points///mnt/a'' = http_NotFound"
  by (simp add: mount_point_of_raw_def TrimPrefix_def HasPrefix_def handlers_a_def
      NewHealthHandler_def HandleMountPoints_def IsMountHealthy_def healthy_a_def
      setHealthy_def watchdog_a_fields)

text \<open>
  C1, amended: the decoded mount point is a slash followed by the suffix without its
  first slash, if it has one. A suffix that starts with \<open>k\<close> slashes decodes to the same
  path with \<open>max 1 k\<close> leading slashes: no slash or one slash give exactly one, two or
  more give one fewer than the suffix had. For a request with the prefix and a non-empty
  suffix, this decoded path is the key looked up in the health map and decides the
  response.
\<close>

theorem decode_leading_slash:
  "mount_point_of_raw raw =
     replicate (max 1 (length (takeWhile ((=) CHR ''/'') raw))) CHR ''/''
       @ dropWhile ((=) CHR ''/'') raw
   \<and> (HasPrefix path (healthPath s @ ''/'' @ mountPointsSubpath s)
        \<and> TrimPrefix path (healthPath s @ ''/'' @ mountPointsSubpath s) = raw
        \<and> raw \<noteq> []
      \<longrightarrow> HandleMountPoints s path =
            (case lastHealthy (watchdog s) (mount_point_of_raw raw) of
               None \<Rightarrow> \<lparr>status = 404, body = ''404 page not found'' @ [CHR 0x0A]\<rparr>
             | Some True \<Rightarrow> \<lparr>status = 200, body = ''ok'' @ [CHR 0x0A]\<rparr>
             | Some False \<Rightarrow> \<lparr>status = 503, body = ''unhealthy'' @ [CHR 0x0A]\<rparr>))"
proof -
  have "HasPrefix path (healthPath s @ ''/'' @ mountPointsSubpath s)
        \<and> TrimPrefix path (healthPath s @ ''/'' @ mountPointsSubpath s) = raw
        \<and> raw \<noteq> []
      \<longrightarrow> HandleMountPoints s path =
            (case lastHealthy (watchdog s) (mount_point_of_raw raw) of
               None \<Rightarrow> \<lparr>status = 404, body = ''404 page not found'' @ [CHR 0x0A]\<rparr>
             | Some True \<Rightarrow> \<lparr>status = 200, body = ''ok'' @ [CHR 0x0A]\<rparr>
             | Some False \<Rightarrow> \<lparr>status = 503, body = ''unhealthy'' @ [CHR 0x0A]\<rparr>)"
  proof
    assume h: "HasPrefix path (healthPath s @ ''/'' @ mountPointsSubpath s)
        \<and> TrimPrefix path (healthPath s @ ''/'' @ mountPointsSubpath s) = raw
        \<and> raw \<noteq> []"
    then have p: "HasPrefix path (healthPath s @ ''/'' @ mountPointsSubpath s)" by simp
    from HandleMountPoints_cases [OF p] h
    show "HandleMountPoints s path =
            (case lastHealthy (watchdog s) (mount_point_of_raw raw) of
               None \<Rightarrow> \<lparr>status = 404, body = ''404 page not found'' @ [CHR 0x0A]\<rparr>
             | Some True \<Rightarrow> \<lparr>status = 200, body = ''ok'' @ [CHR 0x0A]\<rparr>
             | Some False \<Rightarrow> \<lparr>status = 503, body = ''unhealthy'' @ [CHR 0x0A]\<rparr>)"
      by (simp add: Let_def)
  qed
  then show ?thesis
    using mount_point_of_raw_slashes [of raw] by blast
qed

text \<open>
  C1, witness: the suffixes \<open>mnt/a\<close> and \<open>/mnt/a\<close> both decode to \<open>/mnt/a\<close>, and the request
  \<open>/health/mount-points/mnt/a\<close> is answered from the record of \<open>/mnt/a\<close>.
\<close>

theorem decode_leading_slash_witness:
  "HasPrefix ''/health/mount-points/mnt/a''
       (healthPath handlers_a @ ''/'' @ mountPointsSubpath handlers_a) \<and>
   TrimPrefix ''/health/mount-points/mnt/a''
       (healthPath handlers_a @ ''/'' @ mountPointsSubpath handlers_a) = ''mnt/a'' \<and>
   mount_point_of_raw ''mnt/a'' = ''/mnt/a'' \<and>
   mount_point_of_raw ''/mnt/a'' = ''/mnt/a'' \<and>
   HandleMountPoints handlers_a ''/health/mount-points/mnt/a''
     = \<lparr>status = 200, body = ''ok'' @ [CHR 0x0A]\<rparr>"
proof -
  have p: "HasPrefix ''/health/mount-points/mnt/a''
       (healthPath handlers_a @ ''/'' @ mountPointsSubpath handlers_a)"
    by (simp add: HasPrefix_def handlers_a_def NewHealthHandler_def)
  have t: "TrimPrefix ''/health/mount-points/mnt/a''
       (healthPath handlers_a @ ''/'' @ mountPointsSubpath handlers_a) = ''mnt/a''"
    by (simp add: TrimPrefix_def HasPrefix_def handlers_a_def NewHealthHandler_def)
  have d1: "mount_point_of_raw ''mnt/a'' = ''/mnt/a''"
    using decode_leading_slash [of "''mnt/a''"] by simp
  have d2: "mount_point_of_raw ''/mnt/a'' = ''/mnt/a''"
    using decode_leading_slash [of "''/mnt/a''"] by simp
  have l: "lastHealthy (watchdog handlers_a) ''/mnt/a'' = Some True"
    by (simp add: handlers_a_def NewHealthHandler_def healthy_a_def setHealthy_def)
  from decode_leading_slash [of "''mnt/a''" "''/health/mount-points/mnt/a''" handlers_a] p t
  have "HandleMountPoints handlers_a ''/health/mount-points/mnt/a''
     = \<lparr>status = 200, body = ''ok'' @ [CHR 0x0A]\<rparr>"
    by (simp add: d1 l)
  with p t d1 d2 show ?thesis by simp
qed

subsection \<open>C2: the errors of the mount-table check\<close>



subsection \<open>C3: cancellation of the run loop\<close>

text \<open>
  C3, as stated, says that no pass starts after cancellation was signalled, and that no
  pass runs at all when cancellation is already signalled at the start. \<open>Start\<close> runs
  its first pass before it looks at the context: with the context done from the first
  instant on and no tick pending, one pass runs. With the context done and a tick
  pending at the same instant, the \<open>select\<close> may take the tick: then two passes run, the
  second one started after the cancellation.
\<close>

theorem Start_initial_pass_counterexample:
  "ctx_done instant_cancelled \<and> \<not> tick_ready instant_cancelled \<and>
   Start_passes watchdog_a os_ext4 [instant_cancelled] = Some 1 \<and>
   ctx_done instant_both \<and>
   Start_passes watchdog_a os_ext4 [instant_both, instant_cancelled] = Some 2"
proof -
  have wf: "enableWriteTest watchdog_a \<longrightarrow> nfsWriteTestDuration watchdog_a \<noteq> None"
    by (simp add: watchdog_a_fields)
  have vs: "\<forall>mp\<in>set (mountPoints watchdog_a). ValidString mp"
    by (simp add: watchdog_a_fields ValidString_concrete)
  have iv: "0 < checkInterval watchdog_a"
    by (simp add: watchdog_a_fields)
  have c: "ctx_done instant_cancelled \<and> \<not> tick_ready instant_cancelled \<and> ctx_done instant_both"
    by (simp add: instant_cancelled_def instant_both_def)
  show ?thesis
    by (simp add: Start_passes_char [OF wf vs iv] select_concrete c)
qed

text \<open>
  C3, amended: on a watchdog built by \<open>NewWatchdog\<close> (in any state its operations lead
  to) with a positive interval, whose mount points are all valid UTF-8, \<open>Start\<close> does not
  panic and always runs one initial pass, also when cancellation is already signalled.
  After it, the loop returns at the first instant at which the \<open>select\<close> takes the
  cancellation case, and it does return if there is such an instant (otherwise it keeps
  waiting); no pass starts after that instant. The passes run are the initial one and one
  for each tick taken before. When the context is done and no tick is pending at the first
  instant, exactly the initial pass runs. When the context is done and a tick is pending
  at the same instant, the \<open>select\<close> may take either case. When a mount point is not valid
  UTF-8, \<open>Start\<close> does not return: the initial pass panics at the first such mount
  point, in \<open>WithLabelValues\<close>.
\<close>

theorem Start_passes_until_cancelled:
  assumes "api_reachable m" and "0 < checkInterval m"
  shows "((\<forall>mp\<in>set (mountPoints m). ValidString mp) \<longrightarrow>
            Start_passes m os sched =
              (if \<exists>i\<in>set sched. select_case_of i = CaseDone
               then Some (1 + length (filter (\<lambda>i. select_case_of i = CaseTick)
                                       (takeWhile (\<lambda>i. select_case_of i \<noteq> CaseDone) sched)))
               else None)
          \<and> (\<forall>p. Start m os sched \<noteq> Some (Inl p))
          \<and> (ctx_done i \<and> \<not> tick_ready i \<longrightarrow> Start_passes m os (i # sched) = Some 1))
       \<and> ((\<exists>mp\<in>set (mountPoints m). \<not> ValidString mp) \<longrightarrow>
            Start m os sched = Some (Inl InvalidLabelValue))"
proof -
  from api_reachable_inv [OF assms(1)]
  have wf: "enableWriteTest m \<longrightarrow> nfsWriteTestDuration m \<noteq> None" by simp
  have a: "(\<forall>mp\<in>set (mountPoints m). ValidString mp) \<longrightarrow>
            Start_passes m os sched =
              (if \<exists>i\<in>set sched. select_case_of i = CaseDone
               then Some (1 + length (filter (\<lambda>i. select_case_of i = CaseTick)
                                       (takeWhile (\<lambda>i. select_case_of i \<noteq> CaseDone) sched)))
               else None)
          \<and> (\<forall>p. Start m os sched \<noteq> Some (Inl p))
          \<and> (ctx_done i \<and> \<not> tick_ready i \<longrightarrow> Start_passes m os (i # sched) = Some 1)"
  proof
    assume vs: "\<forall>mp\<in>set (mountPoints m). ValidString mp"
    have a1: "Start_passes m os sched =
              (if \<exists>i\<in>set sched. select_case_of i = CaseDone
               then Some (1 + length (filter (\<lambda>i. select_case_of i = CaseTick)
                                       (takeWhile (\<lambda>i. select_case_of i \<noteq> CaseDone) sched)))
               else None)"
      by (rule Start_passes_char [OF wf vs assms(2)])
    have a2: "\<forall>p. Start m os sched \<noteq> Some (Inl p)"
      using Start_no_panic [OF wf vs assms(2)] by blast
    have a3: "ctx_done i \<and> \<not> tick_ready i \<longrightarrow> Start_passes m os (i # sched) = Some 1"
    proof
      assume "ctx_done i \<and> \<not> tick_ready i"
      then have "select_case_of i = CaseDone" by (simp add: select_case_of_def)
      then show "Start_passes m os (i # sched) = Some 1"
        using Start_passes_char [OF wf vs assms(2), of os "i # sched"] by simp
    qed
    from a1 a2 a3
    show "Start_passes m os sched =
              (if \<exists>i\<in>set sched. select_case_of i = CaseDone
               then Some (1 + length (filter (\<lambda>i. select_case_of i = CaseTick)
                                       (takeWhile (\<lambda>i. select_case_of i \<noteq> CaseDone) sched)))
               else None)
          \<and> (\<forall>p. Start m os sched \<noteq> Some (Inl p))
          \<and> (ctx_done i \<and> \<not> tick_ready i \<longrightarrow> Start_passes m os (i # sched) = Some 1)"
      by blast
  qed
  have b: "(\<exists>mp\<in>set (mountPoints m). \<not> ValidString mp) \<longrightarrow>
            Start m os sched = Some (Inl InvalidLabelValue)"
    using Start_invalid_label [OF wf] by blast
  from a b show ?thesis by blast
qed

text \<open>
  C3, witness: on the watchdog of \<open>/mnt/a\<close>, a tick, then the cancellation: two passes;
  the cancellation at once: one. On the watchdog of \<open>/mnt/\<close> followed by the byte \<open>0xFF\<close>
  the initial pass panics.
\<close>

theorem Start_passes_until_cancelled_witness:
  "api_reachable watchdog_a \<and> 0 < checkInterval watchdog_a \<and>
   mountPoints watchdog_a = [''/mnt/a''] \<and> ValidString ''/mnt/a'' \<and>
   ctx_done instant_cancelled \<and> \<not> tick_ready instant_cancelled \<and>
   Start_passes watchdog_a os_nfs [instant_tick, instant_cancelled] = Some 2 \<and>
   Start_passes watchdog_a os_nfs [instant_cancelled, instant_tick] = Some 1 \<and>
   api_reachable watchdog_ff \<and> 0 < checkInterval watchdog_ff \<and>
   mountPoints watchdog_ff = [mount_ff] \<and> \<not> ValidString mount_ff \<and>
   Start watchdog_ff os_nfs [instant_cancelled] = Some (Inl InvalidLabelValue)"
proof -
  have r: "api_reachable watchdog_a"
    using NewWatchdog_a by (rule api_reachable.api_new)
  have rf: "api_reachable watchdog_ff"
    using NewWatchdog_ff by (rule api_reachable.api_new)
  have iv: "0 < checkInterval watchdog_a"
    by (simp add: watchdog_a_fields)
  have ivf: "0 < checkInterval watchdog_ff"
    by (simp add: watchdog_ff_fields)
  have vs: "\<forall>mp\<in>set (mountPoints watchdog_a). ValidString mp"
    by (simp add: watchdog_a_fields ValidString_concrete)
  have nv: "\<exists>mp\<in>set (mountPoints watchdog_ff). \<not> ValidString mp"
    by (simp add: watchdog_ff_fields mount_ff_invalid)
  have c: "ctx_done instant_cancelled \<and> \<not> tick_ready instant_cancelled"
    by (simp add: instant_cancelled_def)
  have a: "Start_passes watchdog_a os_nfs [instant_tick, instant_cancelled] = Some 2"
    using Start_passes_until_cancelled
      [OF r iv, where sched = "[instant_tick, instant_cancelled]" and os = os_nfs] vs
    by (simp add: select_concrete)
  have b: "Start_passes watchdog_a os_nfs [instant_cancelled, instant_tick] = Some 1"
    using Start_passes_until_cancelled
      [OF r iv, where i = instant_cancelled and sched = "[instant_tick]" and os = os_nfs] c vs
    by blast
  have p: "Start watchdog_ff os_nfs [instant_cancelled] = Some (Inl InvalidLabelValue)"
    using Start_passes_until_cancelled
      [OF rf ivf, where sched = "[instant_cancelled]" and os = os_nfs] nv
    by blast
  from r iv c a b rf ivf p show ?thesis
    by (simp add: watchdog_a_fields watchdog_ff_fields ValidString_concrete mount_ff_invalid)
qed

subsection \<open>C4: the keys of the health map\<close>



subsection \<open>C5: the aggregate\<close>

text \<open>
  C5: on the watchdog \<open>NewWatchdog\<close> returns, after any sequence of \<open>setHealthy\<close> calls,
  \<open>IsHealthy\<close> is true exactly when, for every configured mount point, the last value
  stored is \<open>true\<close> (the value stored at construction is \<open>false\<close>). Setting a configured
  mount point to \<open>false\<close> makes the aggregate false; setting it back to \<open>true\<close>, all others
  being \<open>true\<close>, makes it true; with no mount point configured the aggregate is true.
\<close>

theorem IsHealthy_iff_all_last_set:
  "(NewWatchdog reg pn pv ns points iv wt = Inr (mc, reg') \<longrightarrow>
      IsHealthy (apply_sets mc ops)
        = (\<forall>mp\<in>set points. last_set (Some False) ops mp = Some True))
   \<and> (mp \<in> set (mountPoints m) \<longrightarrow> \<not> IsHealthy (setHealthy m mp False))
   \<and> ((\<forall>k\<in>set (mountPoints m). k \<noteq> mp \<longrightarrow> lastHealthy m k = Some True)
        \<longrightarrow> IsHealthy (setHealthy (setHealthy m mp False) mp True))
   \<and> (NewWatchdog reg pn pv ns [] iv wt = Inr (me, rege) \<longrightarrow> IsHealthy (apply_sets me ops))"
proof -
  have a: "NewWatchdog reg pn pv ns points iv wt = Inr (mc, reg') \<longrightarrow>
      IsHealthy (apply_sets mc ops)
        = (\<forall>mp\<in>set points. last_set (Some False) ops mp = Some True)"
  proof
    assume n: "NewWatchdog reg pn pv ns points iv wt = Inr (mc, reg')"
    show "IsHealthy (apply_sets mc ops)
        = (\<forall>mp\<in>set points. last_set (Some False) ops mp = Some True)"
      by (simp add: IsHealthy_def IsHealthy_loop_all apply_sets_mountPoints
          apply_sets_lastHealthy NewWatchdog_mountPoints [OF n] NewWatchdog_lastHealthy [OF n])
  qed
  have b: "mp \<in> set (mountPoints m) \<longrightarrow> \<not> IsHealthy (setHealthy m mp False)"
    by (auto simp add: IsHealthy_def IsHealthy_loop_all setHealthy_def)
  have c: "(\<forall>k\<in>set (mountPoints m). k \<noteq> mp \<longrightarrow> lastHealthy m k = Some True)
        \<longrightarrow> IsHealthy (setHealthy (setHealthy m mp False) mp True)"
    by (auto simp add: IsHealthy_def IsHealthy_loop_all setHealthy_def)
  have d: "NewWatchdog reg pn pv ns [] iv wt = Inr (me, rege) \<longrightarrow> IsHealthy (apply_sets me ops)"
  proof
    assume n: "NewWatchdog reg pn pv ns [] iv wt = Inr (me, rege)"
    show "IsHealthy (apply_sets me ops)"
      by (simp add: IsHealthy_def apply_sets_mountPoints NewWatchdog_mountPoints [OF n])
  qed
  from a b c d show ?thesis by blast
qed

text \<open>
  C5, witness: two mount points, both set to \<open>true\<close>: healthy; only \<open>/mnt/a\<close> set to \<open>true\<close>:
  unhealthy; then, from both \<open>true\<close>, \<open>/mnt/a\<close> set to \<open>false\<close>: unhealthy; then back to
  \<open>true\<close>: healthy.
\<close>

theorem IsHealthy_iff_all_last_set_witness:
  "NewWatchdog registry0 ''nfs_mounter_agent'' ''dev'' ''nfsma'' [''/mnt/a'', ''/mnt/b'']
       30000000000 False
     = Inr (watchdog_ab, registry_a) \<and>
   IsHealthy (apply_sets watchdog_ab [(''/mnt/a'', True), (''/mnt/b'', True)]) \<and>
   \<not> IsHealthy (apply_sets watchdog_ab [(''/mnt/a'', True)]) \<and>
   ''/mnt/a'' \<in> set (mountPoints (apply_sets watchdog_ab [(''/mnt/a'', True), (''/mnt/b'', True)])) \<and>
   \<not> IsHealthy (setHealthy (apply_sets watchdog_ab [(''/mnt/a'', True), (''/mnt/b'', True)])
                  ''/mnt/a'' False) \<and>
   IsHealthy (setHealthy (setHealthy
                (apply_sets watchdog_ab [(''/mnt/a'', True), (''/mnt/b'', True)])
                ''/mnt/a'' False) ''/mnt/a'' True)"
proof -
  let ?m = "apply_sets watchdog_ab [(''/mnt/a'', True), (''/mnt/b'', True)]"
  have mp: "mountPoints ?m = [''/mnt/a'', ''/mnt/b'']"
    by (simp only: apply_sets_mountPoints NewWatchdog_mountPoints [OF NewWatchdog_ab])
  have lb: "lastHealthy ?m ''/mnt/b'' = Some True"
    by (simp add: setHealthy_def)
  have "IsHealthy ?m
      = (\<forall>mp\<in>set [''/mnt/a'', ''/mnt/b''].
           last_set (Some False) [(''/mnt/a'', True), (''/mnt/b'', True)] mp = Some True)"
    using IsHealthy_iff_all_last_set
      [where ops = "[(''/mnt/a'', True), (''/mnt/b'', True)]" and mc = watchdog_ab
         and reg' = registry_a]
      NewWatchdog_ab
    by blast
  then have a: "IsHealthy ?m" by simp
  have "IsHealthy (apply_sets watchdog_ab [(''/mnt/a'', True)])
      = (\<forall>mp\<in>set [''/mnt/a'', ''/mnt/b''].
           last_set (Some False) [(''/mnt/a'', True)] mp = Some True)"
    using IsHealthy_iff_all_last_set
      [where ops = "[(''/mnt/a'', True)]" and mc = watchdog_ab and reg' = registry_a]
      NewWatchdog_ab
    by blast
  then have b: "\<not> IsHealthy (apply_sets watchdog_ab [(''/mnt/a'', True)])" by simp
  have c: "''/mnt/a'' \<in> set (mountPoints ?m)" unfolding mp by simp
  have h: "\<forall>k\<in>set (mountPoints ?m). k \<noteq> ''/mnt/a'' \<longrightarrow> lastHealthy ?m k = Some True"
    unfolding mp using lb by simp
  have d: "\<not> IsHealthy (setHealthy ?m ''/mnt/a'' False)"
    using IsHealthy_iff_all_last_set [where mp = "''/mnt/a''" and m = ?m] c by blast
  have e: "IsHealthy (setHealthy (setHealthy ?m ''/mnt/a'' False) ''/mnt/a'' True)"
    using IsHealthy_iff_all_last_set [where mp = "''/mnt/a''" and m = ?m] h by blast
  from NewWatchdog_ab a b c d e show ?thesis by blast
qed

subsection \<open>C6: the responses of the per-mount endpoint\<close>

text \<open>
  C6: for a request whose path has the prefix, an empty suffix is answered 400 with the
  body \<open>mount point path required\<close>; a suffix that decodes to a path without a record is
  answered 404; a suffix that decodes to a path with a record is answered 200 \<open>ok\<close> when
  the record is healthy and 503 \<open>unhealthy\<close> when it is not.
\<close>

theorem HandleMountPoints_responses:
  assumes "pre = healthPath s @ ''/'' @ mountPointsSubpath s"
    and "HasPrefix path pre"
    and "raw = TrimPrefix path pre"
  shows "(raw = [] \<longrightarrow>
            HandleMountPoints s path
              = \<lparr>status = 400, body = ''mount point path required'' @ [CHR 0x0A]\<rparr>)
       \<and> (raw \<noteq> [] \<and> IsMountHealthy (watchdog s) (mount_point_of_raw raw) = (h, False) \<longrightarrow>
            status (HandleMountPoints s path) = 404)
       \<and> (raw \<noteq> [] \<and> IsMountHealthy (watchdog s) (mount_point_of_raw raw) = (True, True) \<longrightarrow>
            HandleMountPoints s path = \<lparr>status = 200, body = ''ok'' @ [CHR 0x0A]\<rparr>)
       \<and> (raw \<noteq> [] \<and> IsMountHealthy (watchdog s) (mount_point_of_raw raw) = (False, True) \<longrightarrow>
            HandleMountPoints s path = \<lparr>status = 503, body = ''unhealthy'' @ [CHR 0x0A]\<rparr>)"
  using assms
  by (simp add: HandleMountPoints_def Let_def http_Error_def http_NotFound_def)

text \<open>
  C6, witness: the four answers, on the handlers of a healthy \<open>/mnt/a\<close> and on those of
  the watchdog as constructed.
\<close>

theorem HandleMountPoints_responses_witness:
  "HasPrefix ''/health/mount-points/'' ''/health/mount-points/'' \<and>
   HandleMountPoints handlers_a ''/health/mount-points/''
     = \<lparr>status = 400, body = ''mount point path required'' @ [CHR 0x0A]\<rparr> \<and>
   IsMountHealthy (watchdog handlers_a) ''/mnt/b'' = (False, False) \<and>
   status (HandleMountPoints handlers_a ''/health/mount-points/mnt/b'') = 404 \<and>
   IsMountHealthy (watchdog handlers_a) ''/mnt/a'' = (True, True) \<and>
   HandleMountPoints handlers_a ''/health/mount-points/mnt/a''
     = \<lparr>status = 200, body = ''ok'' @ [CHR 0x0A]\<rparr> \<and>
   IsMountHealthy (watchdog handlers_a0) ''/mnt/a'' = (False, True) \<and>
   HandleMountPoints handlers_a0 ''/health/mount-points/mnt/a''
     = \<lparr>status = 503, body = ''unhealthy'' @ [CHR 0x0A]\<rparr>"
proof -
  have pre: "''/health/mount-points/'' = healthPath handlers_a @ ''/'' @ mountPointsSubpath handlers_a"
    by (simp add: handlers_a_def NewHealthHandler_def)
  have pre0: "''/health/mount-points/'' = healthPath handlers_a0 @ ''/'' @ mountPointsSubpath handlers_a0"
    by (simp add: handlers_a0_def NewHealthHandler_def)
  have p1: "HasPrefix ''/health/mount-points/'' ''/health/mount-points/''"
    and p2: "HasPrefix ''/health/mount-points/mnt/b'' ''/health/mount-points/''"
    and p3: "HasPrefix ''/health/mount-points/mnt/a'' ''/health/mount-points/''"
    by (simp_all add: HasPrefix_def)
  have r1: "[] = TrimPrefix ''/health/mount-points/'' ''/health/mount-points/''"
    and r2: "''mnt/b'' = TrimPrefix ''/health/mount-points/mnt/b'' ''/health/mount-points/''"
    and r3: "''mnt/a'' = TrimPrefix ''/health/mount-points/mnt/a'' ''/health/mount-points/''"
    by (simp_all add: TrimPrefix_def HasPrefix_def)
  have d: "mount_point_of_raw ''mnt/b'' = ''/mnt/b''" "mount_point_of_raw ''mnt/a'' = ''/mnt/a''"
    by (simp_all add: mount_point_of_raw_def TrimPrefix_def HasPrefix_def)
  have i1: "IsMountHealthy (watchdog handlers_a) ''/mnt/b'' = (False, False)"
    and i2: "IsMountHealthy (watchdog handlers_a) ''/mnt/a'' = (True, True)"
    by (simp_all add: IsMountHealthy_def handlers_a_def NewHealthHandler_def healthy_a_def
        setHealthy_def watchdog_a_fields)
  have i3: "IsMountHealthy (watchdog handlers_a0) ''/mnt/a'' = (False, True)"
    by (simp add: IsMountHealthy_def handlers_a0_def NewHealthHandler_def watchdog_a_fields)
  have a: "HandleMountPoints handlers_a ''/health/mount-points/''
     = \<lparr>status = 400, body = ''mount point path required'' @ [CHR 0x0A]\<rparr>"
    using HandleMountPoints_responses [OF pre p1 r1] by simp
  have b: "status (HandleMountPoints handlers_a ''/health/mount-points/mnt/b'') = 404"
    using HandleMountPoints_responses [OF pre p2 r2, of False] i1 by (simp add: d)
  have c: "HandleMountPoints handlers_a ''/health/mount-points/mnt/a''
     = \<lparr>status = 200, body = ''ok'' @ [CHR 0x0A]\<rparr>"
    using HandleMountPoints_responses [OF pre p3 r3] i2 by (simp add: d)
  have e: "HandleMountPoints handlers_a0 ''/health/mount-points/mnt/a''
     = \<lparr>status = 503, body = ''unhealthy'' @ [CHR 0x0A]\<rparr>"
    using HandleMountPoints_responses [OF pre0 p3 r3] i3 by (simp add: d)
  from p1 a i1 b i2 c i3 e show ?thesis by blast
qed

subsection \<open>C7: the state after construction\<close>

text \<open>
  C7: for a non-empty list of mount points, on the watchdog \<open>NewWatchdog\<close> returns, before
  any check, every configured mount point has a record and it is unhealthy:
  \<open>IsMountHealthy\<close> returns \<open>(false, true)\<close>, a per-mount request that decodes to a
  configured mount point is answered 503 \<open>unhealthy\<close>, \<open>IsHealthy\<close> is false and the
  aggregate endpoint answers 503 \<open>unhealthy\<close>.
\<close>

theorem initial_state_unhealthy:
  assumes "points \<noteq> []"
    and "NewWatchdog reg pn pv ns points iv wt = Inr (mc, reg')"
  shows "(\<forall>mp\<in>set points. IsMountHealthy mc mp = (False, True))
    \<and> (\<forall>path. HasPrefix path (hp @ ''/'' @ sub)
            \<and> TrimPrefix path (hp @ ''/'' @ sub) \<noteq> []
            \<and> mount_point_of_raw (TrimPrefix path (hp @ ''/'' @ sub)) \<in> set points
          \<longrightarrow> HandleMountPoints (NewHealthHandler mc hp sub) path
                = \<lparr>status = 503, body = ''unhealthy'' @ [CHR 0x0A]\<rparr>)
    \<and> \<not> IsHealthy mc
    \<and> HandleMain (NewHealthHandler mc hp sub)
        = \<lparr>status = 503, body = ''unhealthy'' @ [CHR 0x0A]\<rparr>"
proof -
  have mp: "mountPoints mc = points"
    by (rule NewWatchdog_mountPoints [OF assms(2)])
  have lh: "lastHealthy mc k = (if k \<in> set points then Some False else None)" for k
    by (rule NewWatchdog_lastHealthy [OF assms(2)])
  have a: "\<forall>mp\<in>set points. IsMountHealthy mc mp = (False, True)"
    by (simp add: IsMountHealthy_def lh)
  have b: "\<forall>path. HasPrefix path (hp @ ''/'' @ sub)
            \<and> TrimPrefix path (hp @ ''/'' @ sub) \<noteq> []
            \<and> mount_point_of_raw (TrimPrefix path (hp @ ''/'' @ sub)) \<in> set points
          \<longrightarrow> HandleMountPoints (NewHealthHandler mc hp sub) path
                = \<lparr>status = 503, body = ''unhealthy'' @ [CHR 0x0A]\<rparr>"
    by (simp add: HandleMountPoints_def NewHealthHandler_def Let_def IsMountHealthy_def lh)
  from assms(1) obtain p where "p \<in> set points" by (cases points) auto
  then have "\<exists>mp\<in>set (mountPoints mc). lastHealthy mc mp \<noteq> Some True"
    unfolding mp lh by auto
  then have c: "\<not> IsHealthy mc"
    by (simp add: IsHealthy_def IsHealthy_loop_all)
  then have d: "HandleMain (NewHealthHandler mc hp sub)
        = \<lparr>status = 503, body = ''unhealthy'' @ [CHR 0x0A]\<rparr>"
    by (simp add: HandleMain_def NewHealthHandler_def)
  from a b c d show ?thesis by blast
qed

text \<open>C7, witness: the watchdog of \<open>/mnt/a\<close> as constructed, and its handlers.\<close>

theorem initial_state_unhealthy_witness:
  "[''/mnt/a''] \<noteq> ([] :: string list) \<and>
   NewWatchdog registry0 ''nfs_mounter_agent'' ''dev'' ''nfsma'' [''/mnt/a''] 30000000000 False
     = Inr (watchdog_a, registry_a) \<and>
   IsMountHealthy watchdog_a ''/mnt/a'' = (False, True) \<and>
   HandleMountPoints handlers_a0 ''/health/mount-points/mnt/a''
     = \<lparr>status = 503, body = ''unhealthy'' @ [CHR 0x0A]\<rparr> \<and>
   \<not> IsHealthy watchdog_a \<and>
   HandleMain handlers_a0 = \<lparr>status = 503, body = ''unhealthy'' @ [CHR 0x0A]\<rparr>"
proof -
  have ne: "[''/mnt/a''] \<noteq> ([] :: string list)" by simp
  note t = initial_state_unhealthy [OF ne NewWatchdog_a,
      where hp = "''/health''" and sub = "''mount-points/''"]
  have p: "HasPrefix ''/health/mount-points/mnt/a'' (''/health'' @ ''/'' @ ''mount-points/'')
      \<and> TrimPrefix ''/health/mount-points/mnt/a'' (''/health'' @ ''/'' @ ''mount-points/'') \<noteq> []
      \<and> mount_point_of_raw (TrimPrefix ''/health/mount-points/mnt/a''
           (''/health'' @ ''/'' @ ''mount-points/'')) \<in> set [''/mnt/a'']"
    by (simp add: HasPrefix_def TrimPrefix_def mount_point_of_raw_def)
  from t have a: "IsMountHealthy watchdog_a ''/mnt/a'' = (False, True)"
    by simp
  from t p have b: "HandleMountPoints handlers_a0 ''/health/mount-points/mnt/a''
     = \<lparr>status = 503, body = ''unhealthy'' @ [CHR 0x0A]\<rparr>"
    unfolding handlers_a0_def by blast
  from t have c: "\<not> IsHealthy watchdog_a"
    by blast
  from t have d: "HandleMain handlers_a0 = \<lparr>status = 503, body = ''unhealthy'' @ [CHR 0x0A]\<rparr>"
    unfolding handlers_a0_def by blast
  from ne NewWatchdog_a a b c d show ?thesis by blast
qed

subsection \<open>C8: the order of the steps of a check\<close>

text \<open>
  C8: when \<open>os.Stat\<close> fails, or the path is not a directory, the check returns that
  failure after the \<open>Stat\<close> call alone: the mount table is not opened and no file is
  written. In general the calls of a check are an initial part of \<open>Stat\<close>, the opening
  of the mount table, \<open>WriteFile\<close>, \<open>Remove\<close>, cut at the step that failed: a failure of
  the first step leaves one call, a failure of the second two, and the write test runs
  only after both succeeded and only when it is enabled.
\<close>

theorem checkMounted_short_circuit:
  "(stat_result os mp = Inl err \<longrightarrow>
       checkMounted m os mp = Inr (Some (StatFailed err), m, [Stat mp]))
   \<and> (stat_result os mp = Inr False \<longrightarrow>
       checkMounted m os mp = Inr (Some NotADirectory, m, [Stat mp]))
   \<and> (checkMounted m os mp = Inr (e, m', calls) \<longrightarrow>
       (case e of
          Some (StatFailed x) \<Rightarrow> calls = [Stat mp]
        | Some NotADirectory \<Rightarrow> calls = [Stat mp]
        | Some (CheckingProcMountsFailed x) \<Rightarrow> calls = [Stat mp, OpenProcMounts]
        | Some NotAnNFSMount \<Rightarrow> calls = [Stat mp, OpenProcMounts]
        | Some (WriteTestFailed x) \<Rightarrow>
            enableWriteTest m \<and>
            (calls = [Stat mp, OpenProcMounts, WriteFile mp (test_file_name os)] \<or>
             calls = [Stat mp, OpenProcMounts, WriteFile mp (test_file_name os),
                      Remove mp (test_file_name os)])
        | None \<Rightarrow>
            calls = (if enableWriteTest m
                     then [Stat mp, OpenProcMounts, WriteFile mp (test_file_name os),
                           Remove mp (test_file_name os)]
                     else [Stat mp, OpenProcMounts])))"
proof -
  have a: "stat_result os mp = Inl err \<longrightarrow>
       checkMounted m os mp = Inr (Some (StatFailed err), m, [Stat mp])"
    by (simp add: checkMounted_def)
  have b: "stat_result os mp = Inr False \<longrightarrow>
       checkMounted m os mp = Inr (Some NotADirectory, m, [Stat mp])"
    by (simp add: checkMounted_def)
  from a b checkMounted_calls [of m os mp e m' calls] show ?thesis by blast
qed

text \<open>
  C8, witness: \<open>/mnt/b\<close> does not exist; \<open>/mnt/a\<close> is a file on \<open>os_file\<close>; on \<open>os_readonly\<close>
  the first two steps succeed and the write test fails at its first call.
\<close>

theorem checkMounted_short_circuit_witness:
  "stat_result os_ext4 ''/mnt/b'' = Inl ''no such file or directory'' \<and>
   checkMounted watchdog_a_wt os_ext4 ''/mnt/b''
     = Inr (Some (StatFailed ''no such file or directory''), watchdog_a_wt, [Stat ''/mnt/b'']) \<and>
   stat_result os_file ''/mnt/a'' = Inr False \<and>
   checkMounted watchdog_a_wt os_file ''/mnt/a''
     = Inr (Some NotADirectory, watchdog_a_wt, [Stat ''/mnt/a'']) \<and>
   checkMounted watchdog_a_wt os_readonly ''/mnt/a''
     = Inr (Some (WriteTestFailed ''read-only file system''),
            watchdog_a_wt\<lparr>nfsWriteTestDuration := Some [''/mnt/a'' \<mapsto> [5]]\<rparr>,
            [Stat ''/mnt/a'', OpenProcMounts, WriteFile ''/mnt/a'' (test_file_name os_readonly)])"
proof -
  have a: "checkMounted watchdog_a_wt os_ext4 ''/mnt/b''
     = Inr (Some (StatFailed ''no such file or directory''), watchdog_a_wt, [Stat ''/mnt/b''])"
    using checkMounted_short_circuit
      [of os_ext4 "''/mnt/b''" "''no such file or directory''" watchdog_a_wt]
    by (simp add: stat_concrete)
  have b: "checkMounted watchdog_a_wt os_file ''/mnt/a''
     = Inr (Some NotADirectory, watchdog_a_wt, [Stat ''/mnt/a''])"
    using checkMounted_short_circuit [of os_file "''/mnt/a''" _ watchdog_a_wt]
    by (simp add: stat_concrete)
  note c0 = checkMounted_readonly
  have c: "checkMounted watchdog_a_wt os_readonly ''/mnt/a''
     = Inr (Some (WriteTestFailed ''read-only file system''),
            watchdog_a_wt\<lparr>nfsWriteTestDuration := Some [''/mnt/a'' \<mapsto> [5]]\<rparr>,
            [Stat ''/mnt/a'', OpenProcMounts, WriteFile ''/mnt/a'' (test_file_name os_readonly)])"
    using checkMounted_short_circuit
      [of os_readonly "''/mnt/a''" _ watchdog_a_wt "Some (WriteTestFailed ''read-only file system'')"
          "watchdog_a_wt\<lparr>nfsWriteTestDuration := Some [''/mnt/a'' \<mapsto> [5]]\<rparr>"
          "[Stat ''/mnt/a'', OpenProcMounts, WriteFile ''/mnt/a'' (test_file_name os_readonly)]"]
      c0
    by simp
  from a b c show ?thesis by (simp add: stat_concrete)
qed

subsection \<open>C9: the histogram of write-test durations\<close>

text \<open>
  C9: when \<open>NewWatchdog\<close> returns, it has created and registered the histogram exactly when
  the write test is enabled, and in every reachable state the histogram exists exactly
  when the flag is set. When it exists, a call of \<open>writeTest\<close> on a mount point that is
  valid UTF-8 does not panic and adds exactly one sample, the measured duration, to the
  series of the mount point and none to any other series, whether the file was created
  and removed, the creation failed or the removal failed. On a mount point that is not
  valid UTF-8 \<open>writeTest\<close> panics in \<open>WithLabelValues\<close> before the timer starts and before
  it attempts to write: there is no attempt and no sample. Every call of \<open>writeTest\<close>
  that returns has attempted one write and added one sample, and a check adds one sample
  for each write test it attempts and none otherwise.
\<close>

theorem write_test_histogram:
  "(NewWatchdog reg pn pv ns points iv wt = Inr (mc, reg') \<longrightarrow>
        (nfsWriteTestDuration mc \<noteq> None) = wt
      \<and> (BuildFQName ns ''write_test_duration_seconds'' \<in> set (registered reg'))
          = (wt \<or> BuildFQName ns ''write_test_duration_seconds'' \<in> set (registered reg)))
   \<and> (api_reachable m \<longrightarrow> (nfsWriteTestDuration m \<noteq> None) = enableWriteTest m)
   \<and> (nfsWriteTestDuration m \<noteq> None \<and> ValidString mp \<longrightarrow>
        (\<exists>m' calls.
           writeTest m os mp =
             Inr (case writefile_result os mp (test_file_name os) of
                    Some err \<Rightarrow> Some err
                  | None \<Rightarrow> remove_result os mp (test_file_name os), m', calls)
           \<and> samples m' mp = samples m mp @ [timer_nanos os]
           \<and> (\<forall>k. k \<noteq> mp \<longrightarrow> samples m' k = samples m k)))
   \<and> (\<not> ValidString mp \<longrightarrow> (\<exists>p. writeTest m os mp = Inl p))
   \<and> (writeTest m os mp = Inr (werr, mw, cw) \<longrightarrow>
        samples mw mp = samples m mp @ [timer_nanos os]
      \<and> length (filter is_write_attempt cw) = 1)
   \<and> (checkMounted m os mp = Inr (e, me, ce) \<longrightarrow>
        samples me mp =
          samples m mp @ replicate (length (filter is_write_attempt ce)) (timer_nanos os))"
proof -
  have a: "NewWatchdog reg pn pv ns points iv wt = Inr (mc, reg') \<longrightarrow>
        (nfsWriteTestDuration mc \<noteq> None) = wt
      \<and> (BuildFQName ns ''write_test_duration_seconds'' \<in> set (registered reg'))
          = (wt \<or> BuildFQName ns ''write_test_duration_seconds'' \<in> set (registered reg))"
  proof
    assume n: "NewWatchdog reg pn pv ns points iv wt = Inr (mc, reg')"
    from NewWatchdog_Inr(1) [OF n] have a1: "(nfsWriteTestDuration mc \<noteq> None) = wt"
      by simp
    from BuildFQName_distinct [of ns]
    have "BuildFQName ns ''write_test_duration_seconds''
            \<notin> set [BuildFQName ns ''build_info'', BuildFQName ns ''mount_healthy'',
                    BuildFQName ns ''checks_total'', BuildFQName ns ''remounts_total'']"
      by simp
    with NewWatchdog_Inr(2) [OF n]
    have a2: "(BuildFQName ns ''write_test_duration_seconds'' \<in> set (registered reg'))
          = (wt \<or> BuildFQName ns ''write_test_duration_seconds'' \<in> set (registered reg))"
      by auto
    from a1 a2
    show "(nfsWriteTestDuration mc \<noteq> None) = wt
      \<and> (BuildFQName ns ''write_test_duration_seconds'' \<in> set (registered reg'))
          = (wt \<or> BuildFQName ns ''write_test_duration_seconds'' \<in> set (registered reg))"
      by blast
  qed
  have b: "api_reachable m \<longrightarrow> (nfsWriteTestDuration m \<noteq> None) = enableWriteTest m"
    using api_reachable_inv by blast
  have c: "nfsWriteTestDuration m \<noteq> None \<and> ValidString mp \<longrightarrow>
        (\<exists>m' calls.
           writeTest m os mp =
             Inr (case writefile_result os mp (test_file_name os) of
                    Some err \<Rightarrow> Some err
                  | None \<Rightarrow> remove_result os mp (test_file_name os), m', calls)
           \<and> samples m' mp = samples m mp @ [timer_nanos os]
           \<and> (\<forall>k. k \<noteq> mp \<longrightarrow> samples m' k = samples m k))"
  proof
    assume "nfsWriteTestDuration m \<noteq> None \<and> ValidString mp"
    then obtain h where h: "nfsWriteTestDuration m = Some h" and v: "ValidString mp" by auto
    show "\<exists>m' calls.
           writeTest m os mp =
             Inr (case writefile_result os mp (test_file_name os) of
                    Some err \<Rightarrow> Some err
                  | None \<Rightarrow> remove_result os mp (test_file_name os), m', calls)
           \<and> samples m' mp = samples m mp @ [timer_nanos os]
           \<and> (\<forall>k. k \<noteq> mp \<longrightarrow> samples m' k = samples m k)"
      using writeTest_result [OF h v, of os] samples_observe [OF h, of mp "timer_nanos os"]
      by auto
  qed
  have d: "\<not> ValidString mp \<longrightarrow> (\<exists>p. writeTest m os mp = Inl p)"
    using writeTest_invalid_label by blast
  have e: "writeTest m os mp = Inr (werr, mw, cw) \<longrightarrow>
        samples mw mp = samples m mp @ [timer_nanos os]
      \<and> length (filter is_write_attempt cw) = 1"
  proof
    assume w: "writeTest m os mp = Inr (werr, mw, cw)"
    from writeTest_Inr [OF w] obtain h where h: "nfsWriteTestDuration m = Some h"
      and mw: "mw = m\<lparr>nfsWriteTestDuration := Some (observe h mp (timer_nanos os))\<rparr>"
      and cw: "cw = (case writefile_result os mp (test_file_name os) of
                      Some e \<Rightarrow> [WriteFile mp (test_file_name os)]
                    | None \<Rightarrow> [WriteFile mp (test_file_name os),
                                Remove mp (test_file_name os)])"
      by blast
    show "samples mw mp = samples m mp @ [timer_nanos os]
      \<and> length (filter is_write_attempt cw) = 1"
      by (simp add: mw cw samples_observe [OF h] split: option.splits)
  qed
  have f: "checkMounted m os mp = Inr (e, me, ce) \<longrightarrow>
        samples me mp =
          samples m mp @ replicate (length (filter is_write_attempt ce)) (timer_nanos os)"
    using checkMounted_samples by blast
  from a b c d e f show ?thesis by blast
qed

text \<open>
  C9, witness: with the write test enabled the histogram exists and is registered, without
  it it does not exist and is not registered; a write test that fails to create its file
  still records its sample, alone and within a check; on the mount point \<open>/mnt/\<close> followed
  by the byte \<open>0xFF\<close> the write test panics.
\<close>

theorem write_test_histogram_witness:
  "NewWatchdog registry0 ''nfs_mounter_agent'' ''dev'' ''nfsma'' [''/mnt/a''] 30000000000 False
     = Inr (watchdog_a, registry_a) \<and>
   nfsWriteTestDuration watchdog_a = None \<and>
   ''nfsma_write_test_duration_seconds'' \<notin> set (registered registry_a) \<and>
   NewWatchdog registry0 ''nfs_mounter_agent'' ''dev'' ''nfsma'' [''/mnt/a''] 30000000000 True
     = Inr (watchdog_a_wt, registry_a_wt) \<and>
   nfsWriteTestDuration watchdog_a_wt \<noteq> None \<and>
   ''nfsma_write_test_duration_seconds'' \<in> set (registered registry_a_wt) \<and>
   api_reachable watchdog_a_wt \<and> enableWriteTest watchdog_a_wt \<and>
   ValidString ''/mnt/a'' \<and>
   samples watchdog_a_wt ''/mnt/a'' = [] \<and>
   writeTest watchdog_a_wt os_readonly ''/mnt/a''
     = Inr (Some ''read-only file system'',
            watchdog_a_wt\<lparr>nfsWriteTestDuration := Some [''/mnt/a'' \<mapsto> [5]]\<rparr>,
            [WriteFile ''/mnt/a'' (test_file_name os_readonly)]) \<and>
   samples (watchdog_a_wt\<lparr>nfsWriteTestDuration := Some [''/mnt/a'' \<mapsto> [5]]\<rparr>) ''/mnt/a'' = [5] \<and>
   checkMounted watchdog_a_wt os_readonly ''/mnt/a''
     = Inr (Some (WriteTestFailed ''read-only file system''),
            watchdog_a_wt\<lparr>nfsWriteTestDuration := Some [''/mnt/a'' \<mapsto> [5]]\<rparr>,
            [Stat ''/mnt/a'', OpenProcMounts, WriteFile ''/mnt/a'' (test_file_name os_readonly)]) \<and>
   \<not> ValidString mount_ff \<and>
   writeTest watchdog_a_wt os_readonly mount_ff = Inl InvalidLabelValue"
proof -
  let ?mw = "watchdog_a_wt\<lparr>nfsWriteTestDuration := Some [''/mnt/a'' \<mapsto> [5]]\<rparr>"
  have fq: "BuildFQName ''nfsma'' ''write_test_duration_seconds''
              = ''nfsma_write_test_duration_seconds''"
    by (simp add: BuildFQName_def)
  have r0: "registered registry0 = []"
    by (simp add: registry0_def)
  have r: "api_reachable watchdog_a_wt"
    using NewWatchdog_a_wt by (rule api_reachable.api_new)
  have n: "nfsWriteTestDuration watchdog_a = None
         \<and> ''nfsma_write_test_duration_seconds'' \<notin> set (registered registry_a)"
    using write_test_histogram
      [where wt = False and mc = watchdog_a and reg' = registry_a and reg = registry0
         and ns = "''nfsma''"]
      NewWatchdog_a
    by (simp add: fq r0)
  have e: "nfsWriteTestDuration watchdog_a_wt \<noteq> None
         \<and> ''nfsma_write_test_duration_seconds'' \<in> set (registered registry_a_wt)"
    using write_test_histogram
      [where wt = True and mc = watchdog_a_wt and reg' = registry_a_wt and reg = registry0
         and ns = "''nfsma''"]
      NewWatchdog_a_wt
    by (simp add: fq r0)
  have f: "enableWriteTest watchdog_a_wt"
    using write_test_histogram [where m = watchdog_a_wt] r e by blast
  have s0: "samples watchdog_a_wt ''/mnt/a'' = []"
    by (simp add: samples_def watchdog_a_wt_fields)
  have "\<exists>m' calls.
           writeTest watchdog_a_wt os_readonly ''/mnt/a'' =
             Inr (case writefile_result os_readonly ''/mnt/a'' (test_file_name os_readonly) of
                    Some err \<Rightarrow> Some err
                  | None \<Rightarrow> remove_result os_readonly ''/mnt/a'' (test_file_name os_readonly),
                  m', calls)
           \<and> samples m' ''/mnt/a'' = samples watchdog_a_wt ''/mnt/a'' @ [timer_nanos os_readonly]
           \<and> (\<forall>k. k \<noteq> ''/mnt/a'' \<longrightarrow> samples m' k = samples watchdog_a_wt k)"
    using write_test_histogram
      [where m = watchdog_a_wt and os = os_readonly and mp = "''/mnt/a''"]
      e ValidString_concrete(3)
    by blast
  then have s1: "samples ?mw ''/mnt/a'' = [5]"
    by (auto simp add: writeTest_readonly s0 os_readonly_write)
  have s2: "samples ?mw ''/mnt/a'' = samples watchdog_a_wt ''/mnt/a'' @ [timer_nanos os_readonly]
      \<and> length (filter is_write_attempt [WriteFile ''/mnt/a'' (test_file_name os_readonly)]) = 1"
    using write_test_histogram
      [where m = watchdog_a_wt and os = os_readonly and mp = "''/mnt/a''"
         and werr = "Some ''read-only file system''" and mw = ?mw
         and cw = "[WriteFile ''/mnt/a'' (test_file_name os_readonly)]"]
      writeTest_readonly
    by blast
  have s3: "samples ?mw ''/mnt/a''
      = samples watchdog_a_wt ''/mnt/a''
        @ replicate (length (filter is_write_attempt
            [Stat ''/mnt/a'', OpenProcMounts,
             WriteFile ''/mnt/a'' (test_file_name os_readonly)])) (timer_nanos os_readonly)"
    using write_test_histogram
      [where m = watchdog_a_wt and os = os_readonly and mp = "''/mnt/a''"
         and e = "Some (WriteTestFailed ''read-only file system'')" and me = ?mw
         and ce = "[Stat ''/mnt/a'', OpenProcMounts,
                    WriteFile ''/mnt/a'' (test_file_name os_readonly)]"]
      checkMounted_readonly
    by blast
  have "\<exists>p. writeTest watchdog_a_wt os_readonly mount_ff = Inl p"
    using write_test_histogram [where m = watchdog_a_wt and os = os_readonly and mp = mount_ff]
      mount_ff_invalid
    by blast
  then have p: "writeTest watchdog_a_wt os_readonly mount_ff = Inl InvalidLabelValue"
    by (auto simp add: writeTest_def watchdog_a_wt_fields mount_ff_invalid)
  from NewWatchdog_a NewWatchdog_a_wt n e r f ValidString_concrete(3) s0 writeTest_readonly s1
    checkMounted_readonly mount_ff_invalid p
  show ?thesis by blast
qed

subsection \<open>C10: the counter of remounts\<close>



end
